theory Spec2Isabelle
  imports Complex_Main "HOL-Library.Word" "HOL-Library.AList"
begin

section \<open>Bytes and Node buffers\<close>

text \<open>
  A Node \<open>Buffer\<close> is a list of bytes. \<open>Buffer.alloc n\<close> is zero-filled.
  \<open>buf.write(str, off)\<close> stores the character codes of an ASCII string from \<open>off\<close>
  and silently stops at the end of the buffer. \<open>writeUInt32LE\<close> and \<open>writeUInt16LE\<close>
  throw \<open>ERR_OUT_OF_RANGE\<close> when the value does not fit the field or the field does
  not fit the buffer; numbers are modelled as naturals (sizes and rates).
\<close>

type_synonym byte = "8 word"
type_synonym path = string

datatype js_error = ERR_OUT_OF_RANGE | ENOENT | EBADF | TypeError

definition Buffer_alloc :: "nat \<Rightarrow> byte list" where
  "Buffer_alloc n = replicate n 0"

definition write_at :: "byte list \<Rightarrow> nat \<Rightarrow> byte list \<Rightarrow> byte list" where
  "write_at bs off buf =
     take off buf @ take (length buf - off) bs @ drop (off + length bs) buf"

definition ascii :: "string \<Rightarrow> byte list" where
  "ascii s = map (\<lambda>c. word_of_nat (of_char c)) s"

definition Buffer_write :: "string \<Rightarrow> nat \<Rightarrow> byte list \<Rightarrow> byte list" where
  "Buffer_write str off buf = write_at (ascii str) off buf"

definition le_bytes :: "nat \<Rightarrow> nat \<Rightarrow> byte list" where
  "le_bytes n v = map (\<lambda>k. word_of_nat (v div 256 ^ k)) [0..<n]"

definition writeUInt32LE :: "nat \<Rightarrow> nat \<Rightarrow> byte list \<Rightarrow> js_error + byte list" where
  "writeUInt32LE v off buf =
     (if v > 2 ^ 32 - 1 then Inl ERR_OUT_OF_RANGE
      else if off + 4 > length buf then Inl ERR_OUT_OF_RANGE
      else Inr (write_at (le_bytes 4 v) off buf))"

definition writeUInt16LE :: "nat \<Rightarrow> nat \<Rightarrow> byte list \<Rightarrow> js_error + byte list" where
  "writeUInt16LE v off buf =
     (if v > 2 ^ 16 - 1 then Inl ERR_OUT_OF_RANGE
      else if off + 2 > length buf then Inl ERR_OUT_OF_RANGE
      else Inr (write_at (le_bytes 2 v) off buf))"

text \<open>What \<open>buf.readUInt32LE(off)\<close> returns: the reading used to state what a header
  field encodes.\<close>

definition readUInt32LE :: "byte list \<Rightarrow> nat \<Rightarrow> nat" where
  "readUInt32LE buf off =
     unat (buf ! off) + 256 * unat (buf ! (off + 1)) + 65536 * unat (buf ! (off + 2))
       + 16777216 * unat (buf ! (off + 3))"

definition err_bind :: "'e + 'a \<Rightarrow> ('a \<Rightarrow> 'e + 'b) \<Rightarrow> 'e + 'b" where
  "err_bind r f = (case r of Inl e \<Rightarrow> Inl e | Inr x \<Rightarrow> f x)"

section \<open>The container header (botv3.js, writeWavHeader)\<close>

text \<open>
  The 44 bytes that \<open>writeWavHeader\<close> builds before handing them to \<open>fs.writeSync\<close>,
  statement by statement. A throwing \<open>writeUInt32LE\<close> aborts the function before
  anything is written to the descriptor.
\<close>

definition wav_header :: "nat \<Rightarrow> nat \<Rightarrow> js_error + byte list" where
  "wav_header dataLength sampleRate =
     (let blockAlign = 2;
          byteRate = sampleRate * blockAlign;
          header = Buffer_alloc 44;
          header = Buffer_write ''RIFF'' 0 header
      in err_bind (writeUInt32LE (36 + dataLength) 4 header) (\<lambda>header.
         let header = Buffer_write ''WAVE'' 8 header;
             header = Buffer_write ''fmt '' 12 header
         in err_bind (writeUInt32LE 16 16 header) (\<lambda>header.
            err_bind (writeUInt16LE 1 20 header) (\<lambda>header.
            err_bind (writeUInt16LE 1 22 header) (\<lambda>header.
            err_bind (writeUInt32LE sampleRate 24 header) (\<lambda>header.
            err_bind (writeUInt32LE byteRate 28 header) (\<lambda>header.
            err_bind (writeUInt16LE blockAlign 32 header) (\<lambda>header.
            err_bind (writeUInt16LE 16 34 header) (\<lambda>header.
            let header = Buffer_write ''data'' 36 header
            in writeUInt32LE dataLength 40 header)))))))))"

section \<open>Files, descriptors and the writers table\<close>

text \<open>
  The part of the Node process that \<open>openWriter\<close>, \<open>writeChunk\<close>, \<open>closeWriter\<close> and
  \<open>finalizeRawToWav\<close> act on: file contents by path, the open descriptors (each with
  its own position), the module-level \<open>writers\<close> map in insertion order, and the
  console. Descriptor numbers are handed out from a counter. Directories are not
  modelled: opening a file for writing always succeeds.
\<close>

datatype open_flag = O_R | O_W

record descriptor =
  fd_path :: path
  fd_pos :: nat
  fd_flag :: open_flag

record track_meta =
  track_id :: "string option"
  stream_id :: "string option"
  mid :: "string option"
  sample_rate :: "nat option"
  channels :: "nat option"

record writer =
  fd :: nat
  rawPath :: path
  wavPath :: path
  bytes :: nat
  meta :: track_meta

record node_state =
  files :: "path \<rightharpoonup> byte list"
  fds :: "nat \<rightharpoonup> descriptor"
  next_fd :: nat
  writers :: "(string \<times> writer) list"
  console :: "string list"

type_synonym 'a thrown = "(js_error \<times> node_state) + 'a"

definition content :: "node_state \<Rightarrow> path \<Rightarrow> byte list" where
  "content s p = (case files s p of None \<Rightarrow> [] | Some c \<Rightarrow> c)"

definition statSync_size :: "path \<Rightarrow> node_state \<Rightarrow> nat thrown" where
  "statSync_size p s = (case files s p of None \<Rightarrow> Inl (ENOENT, s) | Some c \<Rightarrow> Inr (length c))"

definition openSync_w :: "path \<Rightarrow> node_state \<Rightarrow> nat \<times> node_state" where
  "openSync_w p s =
     (next_fd s,
      s\<lparr>files := (files s)(p \<mapsto> []),
        fds := (fds s)(next_fd s \<mapsto> \<lparr>fd_path = p, fd_pos = 0, fd_flag = O_W\<rparr>),
        next_fd := Suc (next_fd s)\<rparr>)"

definition openSync_r :: "path \<Rightarrow> node_state \<Rightarrow> (nat \<times> node_state) thrown" where
  "openSync_r p s =
     (case files s p of
        None \<Rightarrow> Inl (ENOENT, s)
      | Some c \<Rightarrow>
          Inr (next_fd s,
               s\<lparr>fds := (fds s)(next_fd s \<mapsto> \<lparr>fd_path = p, fd_pos = 0, fd_flag = O_R\<rparr>),
                 next_fd := Suc (next_fd s)\<rparr>))"

definition closeSync :: "nat \<Rightarrow> node_state \<Rightarrow> node_state thrown" where
  "closeSync n s =
     (case fds s n of
        None \<Rightarrow> Inl (EBADF, s)
      | Some d \<Rightarrow> Inr (s\<lparr>fds := (fds s)(n := None)\<rparr>))"

text \<open>\<open>fs.writeSync(fd, buf)\<close> stores the whole buffer at the descriptor's position
  (zero-filling a gap past the end of the file) and advances the position.\<close>

definition pwrite :: "byte list \<Rightarrow> nat \<Rightarrow> byte list \<Rightarrow> byte list" where
  "pwrite bs pos c =
     take pos c @ replicate (pos - length c) 0 @ bs @ drop (pos + length bs) c"

definition writeSync :: "nat \<Rightarrow> byte list \<Rightarrow> node_state \<Rightarrow> node_state thrown" where
  "writeSync n buf s =
     (case fds s n of
        None \<Rightarrow> Inl (EBADF, s)
      | Some d \<Rightarrow>
          if fd_flag d \<noteq> O_W then Inl (EBADF, s)
          else Inr (s\<lparr>files := (files s)(fd_path d \<mapsto> pwrite buf (fd_pos d) (content s (fd_path d))),
                     fds := (fds s)(n \<mapsto> d\<lparr>fd_pos := fd_pos d + length buf\<rparr>)\<rparr>))"

text \<open>\<open>fs.readSync(fd, buf, 0, size, null)\<close>: up to \<open>size\<close> bytes from the descriptor's
  position, which advances by the number of bytes read; the bytes read are returned.\<close>

definition readSync :: "nat \<Rightarrow> nat \<Rightarrow> node_state \<Rightarrow> (byte list \<times> node_state) thrown" where
  "readSync n sz s =
     (case fds s n of
        None \<Rightarrow> Inl (EBADF, s)
      | Some d \<Rightarrow>
          if fd_flag d \<noteq> O_R then Inl (EBADF, s)
          else let got = take sz (drop (fd_pos d) (content s (fd_path d)))
               in Inr (got, s\<lparr>fds := (fds s)(n \<mapsto> d\<lparr>fd_pos := fd_pos d + length got\<rparr>)\<rparr>))"

definition writeWavHeader :: "nat \<Rightarrow> nat \<Rightarrow> nat \<Rightarrow> node_state \<Rightarrow> node_state thrown" where
  "writeWavHeader n dataLength sampleRate s =
     (case wav_header dataLength sampleRate of
        Inl e \<Rightarrow> Inl (e, s)
      | Inr header \<Rightarrow> writeSync n header s)"

section \<open>Finalization (botv3.js, finalizeRawToWav)\<close>

definition bufSize :: nat where
  "bufSize = 2 ^ 20"

text \<open>
  The copy loop \<open>while ((bytesRead = fs.readSync(...)) > 0) fs.writeSync(...)\<close>. It runs
  for as long as the source descriptor yields bytes, which need not end when both
  descriptors are open on the same file; \<open>None\<close> is a loop that never returns.
\<close>

partial_function (option) copy_loop :: "nat \<Rightarrow> nat \<Rightarrow> node_state \<Rightarrow> (node_state thrown) option" where
  "copy_loop rawFd wavFd s =
     (case readSync rawFd bufSize s of
        Inl e \<Rightarrow> Some (Inl e)
      | Inr (buf, s1) \<Rightarrow>
          if length buf > 0 then
            (case writeSync wavFd buf s1 of
               Inl e \<Rightarrow> Some (Inl e)
             | Inr s2 \<Rightarrow> copy_loop rawFd wavFd s2)
          else Some (Inr s1))"

definition finalizeRawToWav :: "path \<Rightarrow> path \<Rightarrow> nat \<Rightarrow> node_state \<Rightarrow> (node_state thrown) option" where
  "finalizeRawToWav rawP wavP sampleRate s =
     (case statSync_size rawP s of
        Inl e \<Rightarrow> Some (Inl e)
      | Inr dataLen \<Rightarrow>
          (case openSync_w wavP s of (wavFd, s1) \<Rightarrow>
          (case writeWavHeader wavFd dataLen sampleRate s1 of
             Inl e \<Rightarrow> Some (Inl e)
           | Inr s2 \<Rightarrow>
          (case openSync_r rawP s2 of
             Inl e \<Rightarrow> Some (Inl e)
           | Inr (rawFd, s3) \<Rightarrow>
          (case copy_loop rawFd wavFd s3 of
             None \<Rightarrow> None
           | Some (Inl e) \<Rightarrow> Some (Inl e)
           | Some (Inr s4) \<Rightarrow>
          (case closeSync rawFd s4 of
             Inl e \<Rightarrow> Some (Inl e)
           | Inr s5 \<Rightarrow> Some (closeSync wavFd s5)))))))"

section \<open>The writers table (botv3.js, openWriter, writeChunk, closeWriter)\<close>

text \<open>
  \<open>key.replace(/[^a-z0-9_\-\.]/gi, '_')\<close> keeps ASCII letters, digits, underscore,
  hyphen and dot. \<open>path.join\<close> is modelled without normalisation. A string
  \<open>replace\<close> with a string pattern rewrites the first occurrence only.
\<close>

definition safe_char :: "char \<Rightarrow> bool" where
  "safe_char c =
     (let n = (of_char c :: nat)
      in (97 \<le> n \<and> n \<le> 122) \<or> (65 \<le> n \<and> n \<le> 90) \<or> (48 \<le> n \<and> n \<le> 57)
         \<or> c = CHR ''_'' \<or> c = CHR ''-'' \<or> c = CHR ''.'')"

definition sanitize_key :: "string \<Rightarrow> string" where
  "sanitize_key key = map (\<lambda>c. if safe_char c then c else CHR ''_'') key"

definition path_join :: "path \<Rightarrow> string \<Rightarrow> path" where
  "path_join dir name = dir @ ''/'' @ name"

fun replace_first :: "string \<Rightarrow> string \<Rightarrow> string \<Rightarrow> string" where
  "replace_first pat rep [] = (if pat = [] then rep else [])"
| "replace_first pat rep (c # cs) =
     (if take (length pat) (c # cs) = pat then rep @ drop (length pat) (c # cs)
      else c # replace_first pat rep cs)"

definition openWriter :: "string \<Rightarrow> path \<Rightarrow> track_meta \<Rightarrow> node_state \<Rightarrow> node_state" where
  "openWriter key baseDir m s =
     (let safe = sanitize_key key;
          rawP = path_join baseDir (''track_'' @ safe @ ''.pcm16le.raw'');
          wavP = replace_first ''.raw'' ''.wav'' rawP
      in case openSync_w rawP s of (n, s1) \<Rightarrow>
           s1\<lparr>writers := AList.update key
                  \<lparr>fd = n, rawPath = rawP, wavPath = wavP, bytes = 0, meta = m\<rparr> (writers s1)\<rparr>)"

definition writeChunk :: "string \<Rightarrow> byte list \<Rightarrow> node_state \<Rightarrow> node_state thrown" where
  "writeChunk key u8arr s =
     (case map_of (writers s) key of
        None \<Rightarrow> Inr s
      | Some w \<Rightarrow>
          (case writeSync (fd w) u8arr s of
             Inl e \<Rightarrow> Inl e
           | Inr s1 \<Rightarrow>
               Inr (s1\<lparr>writers := AList.update key (w\<lparr>bytes := bytes w + length u8arr\<rparr>) (writers s1)\<rparr>)))"

text \<open>\<open>w.meta?.sample_rate || rate\<close>: the stored rate unless it is missing or zero.\<close>

definition rate_or :: "nat option \<Rightarrow> nat \<Rightarrow> nat" where
  "rate_or stored rate = (case stored of None \<Rightarrow> rate | Some r \<Rightarrow> if r = 0 then rate else r)"

definition closeWriter :: "string \<Rightarrow> nat \<Rightarrow> node_state \<Rightarrow> (node_state thrown) option" where
  "closeWriter key rate s =
     (case map_of (writers s) key of
        None \<Rightarrow> Some (Inr s)
      | Some w \<Rightarrow>
          (case closeSync (fd w) s of
             Inl e \<Rightarrow> Some (Inl e)
           | Inr s1 \<Rightarrow>
               (let rrate = rate_or (sample_rate (meta w)) rate
                in case finalizeRawToWav (rawPath w) (wavPath w) rrate s1 of
                     None \<Rightarrow> None
                   | Some (Inl e) \<Rightarrow> Some (Inl e)
                   | Some (Inr s2) \<Rightarrow> Some (Inr (s2\<lparr>writers := AList.delete key (writers s2)\<rparr>)))))"

text \<open>The bridge functions exposed to the page by \<open>recordGoogleMeet\<close>, and its
  end-of-run loop \<open>for (const key of Array.from(writers.keys())) closeWriter(key, 16000)\<close>
  over the keys as they were when the loop started.\<close>

definition webrtcOpenTrack :: "path \<Rightarrow> string \<Rightarrow> track_meta \<Rightarrow> node_state \<Rightarrow> node_state" where
  "webrtcOpenTrack trackDir key m s = openWriter key trackDir m s"

definition webrtcWriteTrack :: "string \<Rightarrow> byte list \<Rightarrow> node_state \<Rightarrow> node_state thrown" where
  "webrtcWriteTrack key u8 s = writeChunk key u8 s"

definition webrtcCloseTrack :: "string \<Rightarrow> node_state \<Rightarrow> (node_state thrown) option" where
  "webrtcCloseTrack key s = closeWriter key 16000 s"

definition botLog :: "string \<Rightarrow> node_state \<Rightarrow> node_state" where
  "botLog m s = s\<lparr>console := console s @ [''[browser] '' @ m]\<rparr>"

fun finalize_loop :: "string list \<Rightarrow> node_state \<Rightarrow> (node_state thrown) option" where
  "finalize_loop [] s = Some (Inr s)"
| "finalize_loop (key # keys) s =
     (case closeWriter key 16000 s of
        None \<Rightarrow> None
      | Some (Inl e) \<Rightarrow> Some (Inl e)
      | Some (Inr s1) \<Rightarrow> finalize_loop keys s1)"

definition finalize_writers :: "node_state \<Rightarrow> (node_state thrown) option" where
  "finalize_writers s = finalize_loop (map fst (writers s)) s"

section \<open>Track metadata of the recording session (botv3.js, RecordingSession)\<close>

text \<open>
  The in-memory \<open>tracks\<close> table of \<open>RecordingSession\<close> and the two handlers that the
  page reaches through \<open>webrtcEvent\<close>. A payload field that is missing is \<open>None\<close>;
  an empty string and zero are falsy as well. Timestamps are supplied by the caller.
  Each handler ends by persisting the table with \<open>writeJsonAtomic\<close>, which acts on
  metadata documents only and is modelled on its own below.
\<close>

record track_entry =
  te_key :: string
  te_trackId :: "string option"
  te_streamId :: "string option"
  te_mid :: "string option"
  te_started_at :: string
  te_wav :: string
  te_meta :: string
  te_sample_rate :: "nat option"
  te_channels :: "nat option"

record session =
  tracks :: "(string \<times> track_entry) list"

definition truthy_str :: "string option \<Rightarrow> bool" where
  "truthy_str x = (case x of None \<Rightarrow> False | Some v \<Rightarrow> v \<noteq> [])"

definition truthy_num :: "nat option \<Rightarrow> bool" where
  "truthy_num x = (case x of None \<Rightarrow> False | Some v \<Rightarrow> v \<noteq> 0)"

definition or_null :: "string option \<Rightarrow> string option" where
  "or_null x = (if truthy_str x then x else None)"

definition onTrackOpen ::
  "string \<Rightarrow> string option \<Rightarrow> string option \<Rightarrow> string option \<Rightarrow> string option \<Rightarrow> session \<Rightarrow> session" where
  "onTrackOpen now key trackId streamId mid' ss =
     (case key of
        None \<Rightarrow> ss
      | Some k \<Rightarrow>
          if k = [] then ss
          else ss\<lparr>tracks := AList.update k
                 \<lparr>te_key = k, te_trackId = or_null trackId, te_streamId = or_null streamId,
                  te_mid = or_null mid', te_started_at = now,
                  te_wav = ''track_'' @ k @ ''.wav'', te_meta = ''track_'' @ k @ ''.json'',
                  te_sample_rate = None, te_channels = None\<rparr> (tracks ss)\<rparr>)"

definition onTrackMeta :: "string option \<Rightarrow> nat option \<Rightarrow> nat option \<Rightarrow> session \<Rightarrow> session" where
  "onTrackMeta key sr ch ss =
     (case key of
        None \<Rightarrow> ss
      | Some k \<Rightarrow>
          if k = [] then ss
          else case map_of (tracks ss) k of
             None \<Rightarrow> ss
           | Some t \<Rightarrow>
               (let t1 = (if truthy_num sr then t\<lparr>te_sample_rate := sr\<rparr> else t);
                    t2 = (if truthy_num ch then t1\<lparr>te_channels := ch\<rparr> else t1)
                in ss\<lparr>tracks := AList.update k t2 (tracks ss)\<rparr>))"

section \<open>Reading outcomes\<close>

text \<open>The byte layout of a canonical header for a payload of \<open>S\<close> bytes at rate \<open>r\<close>,
  field by field; \<open>wav_header\<close> is shown below to produce it whenever nothing throws.\<close>

definition wav_bytes :: "nat \<Rightarrow> nat \<Rightarrow> byte list" where
  "wav_bytes S r =
     ascii ''RIFF'' @ le_bytes 4 (36 + S) @ ascii ''WAVEfmt '' @ le_bytes 4 16
     @ le_bytes 2 1 @ le_bytes 2 1 @ le_bytes 4 r @ le_bytes 4 (r * 2) @ le_bytes 2 2
     @ le_bytes 2 16 @ ascii ''data'' @ le_bytes 4 S"

text \<open>The exception a call ended with, the state it left behind (also when it threw),
  and the content of a file in that state.\<close>

definition thrown_error :: "(node_state thrown) option \<Rightarrow> js_error option" where
  "thrown_error r = (case r of Some (Inl (e, s)) \<Rightarrow> Some e | _ \<Rightarrow> None)"

definition state_after :: "(node_state thrown) option \<Rightarrow> node_state option" where
  "state_after r = (case r of None \<Rightarrow> None | Some (Inl (e, s)) \<Rightarrow> Some s | Some (Inr s) \<Rightarrow> Some s)"

definition file_after :: "(node_state thrown) option \<Rightarrow> path \<Rightarrow> byte list option" where
  "file_after r p = (case state_after r of None \<Rightarrow> None | Some s \<Rightarrow> files s p)"

definition process_start :: node_state where
  "process_start = \<lparr>files = Map.empty, fds = Map.empty, next_fd = 3, writers = [], console = []\<rparr>"

text \<open>The meta object that the page hook passes to \<open>webrtcOpenTrack\<close>:
  \<open>{ track_id, stream_id, mid }\<close>, without a sample rate.\<close>

definition hook_meta :: "string \<Rightarrow> string option \<Rightarrow> string option \<Rightarrow> track_meta" where
  "hook_meta tid sid m =
     \<lparr>track_id = Some tid, stream_id = sid, mid = m, sample_rate = None, channels = None\<rparr>"

section \<open>Closing a participant file (meetbot-v2.js, closeAudioFiles)\<close>

text \<open>
  The file effects of one iteration of the loop over \<open>participantAudioStreams\<close>, after
  the write stream has been ended and flushed: the raw file is finalized at 16000 Hz
  only when it holds data, and an empty raw file is unlinked. Every exception is caught
  by the iteration, which goes on with the state reached; \<open>None\<close> is a copy loop that
  never returns. Log lines and the update of the participant's metadata are left out.
\<close>

definition unlinkSync :: "path \<Rightarrow> node_state \<Rightarrow> node_state thrown" where
  "unlinkSync p s =
     (case files s p of
        None \<Rightarrow> Inl (ENOENT, s)
      | Some c \<Rightarrow> Inr (s\<lparr>files := (files s)(p := None)\<rparr>))"

definition close_participant_file :: "path \<Rightarrow> path \<Rightarrow> node_state \<Rightarrow> node_state option" where
  "close_participant_file rawP wavP s =
     (case statSync_size rawP s of
        Inl (e, s1) \<Rightarrow> Some s1
      | Inr sz \<Rightarrow>
          if sz > 0 then
            (case finalizeRawToWav rawP wavP 16000 s of
               None \<Rightarrow> None
             | Some (Inl (e, s1)) \<Rightarrow> Some s1
             | Some (Inr s1) \<Rightarrow> Some s1)
          else
            (case unlinkSync rawP s of
               Inl (e, s1) \<Rightarrow> Some s1
             | Inr s1 \<Rightarrow> Some s1))"

text \<open>The state a call that cannot loop left behind, the sample-rate field of a
  container file, and the sample rate the session has recorded for a track.\<close>

definition state_of :: "node_state thrown \<Rightarrow> node_state" where
  "state_of r = (case r of Inl (e, s) \<Rightarrow> s | Inr s \<Rightarrow> s)"

definition header_rate_after :: "(node_state thrown) option \<Rightarrow> path \<Rightarrow> nat option" where
  "header_rate_after r p = (case file_after r p of None \<Rightarrow> None | Some w \<Rightarrow> Some (readUInt32LE w 24))"

definition track_rate :: "session \<Rightarrow> string \<Rightarrow> nat option" where
  "track_rate ss key = (case map_of (tracks ss) key of None \<Rightarrow> None | Some t \<Rightarrow> te_sample_rate t)"

section \<open>Silence suppression (meetbot-v2.js, sendParticipantAudioChunk)\<close>








definition int16_of :: "byte \<Rightarrow> byte \<Rightarrow> int" where
  "int16_of lo hi =
     (let u = uint lo + 256 * uint hi in if u \<ge> 32768 then u - 65536 else u)"

fun int16_samples :: "byte list \<Rightarrow> int list" where
  "int16_samples (lo # hi # rest) = int16_of lo hi # int16_samples rest"
| "int16_samples _ = []"








text \<open>
  What the claim calls a silent chunk, stated without the code: the chunk read as
  two's-complement 16-bit little-endian samples, its peak normalized amplitude (the
  largest \<open>|sample| / 32768\<close>, 0 for no sample), and the peak being below \<open>0.0001\<close>.
  \<open>silent_run\<close> counts the silent chunks at the end of a sequence, the last one
  included.
\<close>

fun pcm16le :: "byte list \<Rightarrow> int list" where
  "pcm16le (lo # hi # rest) = signed_take_bit 15 (uint lo + 256 * uint hi) # pcm16le rest"
| "pcm16le _ = []"






section \<open>Down-mix to mono (meetbot-v2.js, convertToMono; webrtc-hook.js, pump)\<close>

text \<open>
  Samples are real numbers: the sums and quotients below are the exact ones, without the
  rounding of the double accumulator and of the Float32Array store.
  \<open>new Float32Array(n)\<close> truncates a fractional \<open>n\<close>, is empty for \<open>NaN\<close> and throws a
  RangeError for \<open>Infinity\<close>, which is what \<open>audioData.length / 0\<close> gives.
\<close>

definition channel_sum :: "(nat \<Rightarrow> real) \<Rightarrow> nat \<Rightarrow> real" where
  "channel_sum sample numberOfChannels = foldl (\<lambda>sum channel. sum + sample channel) 0 [0..<numberOfChannels]"

definition convertToMono :: "real list \<Rightarrow> nat \<Rightarrow> js_error + real list" where
  "convertToMono audioData numberOfChannels =
     (if numberOfChannels = 1 then Inr audioData
      else if numberOfChannels = 0 then (if audioData = [] then Inr [] else Inl ERR_OUT_OF_RANGE)
      else Inr (map (\<lambda>i. channel_sum (\<lambda>channel. audioData ! (i * numberOfChannels + channel)) numberOfChannels
                          / real numberOfChannels)
                    [0..<length audioData div numberOfChannels]))"

text \<open>\<open>mono.set(src)\<close> copies \<open>src\<close> to the front of \<open>mono\<close> and throws when it is
  longer. The two mono mixes of \<open>pump\<close>: from one plane per channel, and from
  interleaved samples.\<close>

definition typed_array_set :: "real list \<Rightarrow> real list \<Rightarrow> js_error + real list" where
  "typed_array_set target src =
     (if length src > length target then Inl ERR_OUT_OF_RANGE
      else Inr (src @ drop (length src) target))"

definition pump_mix_planar :: "nat \<Rightarrow> nat \<Rightarrow> real list list \<Rightarrow> js_error + real list" where
  "pump_mix_planar numCh numFr chBuf =
     (let mono = replicate numFr 0
      in if numCh = 1 then typed_array_set mono (chBuf ! 0)
         else Inr (map (\<lambda>i. channel_sum (\<lambda>ch. chBuf ! ch ! i) numCh / real numCh) [0..<numFr]))"

definition pump_mix_interleaved :: "nat \<Rightarrow> nat \<Rightarrow> real list \<Rightarrow> js_error + real list" where
  "pump_mix_interleaved numCh numFr ileaved =
     (let mono = replicate numFr 0
      in if numCh = 1 then typed_array_set mono ileaved
         else Inr (map (\<lambda>i. channel_sum (\<lambda>ch. ileaved ! (i * numCh + ch)) numCh / real numCh) [0..<numFr]))"

text \<open>The arithmetic mean of the \<open>N\<close> channel samples of frame \<open>i\<close>, and the
  interleaving of \<open>N\<close> channels that all carry the same signal.\<close>

definition frame_mean :: "(nat \<Rightarrow> nat \<Rightarrow> real) \<Rightarrow> nat \<Rightarrow> nat \<Rightarrow> real" where
  "frame_mean sample N i = (\<Sum>ch<N. sample i ch) / real N"

definition same_on_all_channels :: "nat \<Rightarrow> real list \<Rightarrow> real list" where
  "same_on_all_channels N signal = concat (map (replicate N) signal)"

section \<open>Float to 16-bit conversion (meetbot-v2.js, convertFloat32ToInt16; webrtc-hook.js, f32ToI16)\<close>

text \<open>
  An element of a Float32Array is a finite number, an infinity or NaN. The finite ones
  are modelled as reals: a float32 has a 24-bit significand, so its products with
  \<open>0x8000\<close> and \<open>0x7FFF\<close> are exact in double precision and the real product is the
  computed one. \<open>Math.min\<close> and \<open>Math.max\<close> return NaN on NaN, and \<open>NaN < 0\<close> is false.
  Storing a number into an Int16Array, or with \<open>DataView.setInt16\<close>, applies ToInt16:
  NaN and the infinities become 0, any other value is truncated towards zero and wrapped
  modulo \<open>2^16\<close> into the signed range.
\<close>

datatype f32 = Finite real | PlusInfinity | MinusInfinity | NaN

definition Math_min_1 :: "f32 \<Rightarrow> f32" where
  "Math_min_1 s = (case s of Finite x \<Rightarrow> Finite (min 1 x) | PlusInfinity \<Rightarrow> Finite 1
                   | MinusInfinity \<Rightarrow> MinusInfinity | NaN \<Rightarrow> NaN)"

definition Math_max_neg1 :: "f32 \<Rightarrow> f32" where
  "Math_max_neg1 s = (case s of Finite x \<Rightarrow> Finite (max (- 1) x) | PlusInfinity \<Rightarrow> PlusInfinity
                      | MinusInfinity \<Rightarrow> Finite (- 1) | NaN \<Rightarrow> NaN)"

definition scale_sample :: "f32 \<Rightarrow> f32" where
  "scale_sample s = (case s of
       Finite x \<Rightarrow> if x < 0 then Finite (x * 32768) else Finite (x * 32767)
     | PlusInfinity \<Rightarrow> PlusInfinity
     | MinusInfinity \<Rightarrow> MinusInfinity
     | NaN \<Rightarrow> NaN)"

definition truncate_real :: "real \<Rightarrow> int" where
  "truncate_real v = (if v < 0 then \<lceil>v\<rceil> else \<lfloor>v\<rfloor>)"

definition ToInt16 :: "f32 \<Rightarrow> int" where
  "ToInt16 v = (case v of
       Finite x \<Rightarrow> (let m = truncate_real x mod 65536 in if m \<ge> 32768 then m - 65536 else m)
     | _ \<Rightarrow> 0)"

definition sample_to_int16 :: "f32 \<Rightarrow> int" where
  "sample_to_int16 sample = ToInt16 (scale_sample (Math_max_neg1 (Math_min_1 sample)))"

definition convertFloat32ToInt16 :: "f32 list \<Rightarrow> int list" where
  "convertFloat32ToInt16 float32Array = map sample_to_int16 float32Array"

text \<open>\<open>dv.setInt16(i * 2, v, true)\<close> stores the low byte first.\<close>

definition f32ToI16 :: "f32 list \<Rightarrow> byte list" where
  "f32ToI16 f32 =
     concat (map (\<lambda>s. let v = sample_to_int16 s in [word_of_int v, word_of_int (v div 256)]) f32)"

text \<open>Reversing the conversion: a 16-bit value divided by the scale that was applied
  to samples of its sign.\<close>

definition int16_to_float :: "int \<Rightarrow> real" where
  "int16_to_float q = (if q < 0 then real_of_int q / 32768 else real_of_int q / 32767)"

definition clip_unit :: "real \<Rightarrow> real" where
  "clip_unit x = max (- 1) (min 1 x)"

section \<open>Metadata documents (botv3.js, writeJsonAtomic)\<close>

text \<open>
  One call of \<open>writeJsonAtomic\<close> on a disk of documents. Which file-system call fails,
  with which code, is the environment's choice and a parameter; so is what a failed
  \<open>writeFile\<close> leaves at the temporary path and what a failed \<open>copyFile\<close> leaves at
  the destination (nothing, the old content, or a partial copy: Node gives no atomicity
  guarantee for \<open>copyFile\<close>). \<open>rename\<close> is atomic: it either replaces the destination
  with the complete temporary file or changes nothing. The serialized text of the
  object is given. The result records whether the returned promise is rejected, the
  disk afterwards and the calls issued, in order.

  The call first awaits \<open>ensureDir\<close>, then chains the closure \<open>run\<close> behind the promise
  \<open>prev\<close> that \<open>writeQueues\<close> holds for the path, with \<open>prev.then(run)\<close>. An entry is
  removed when its promise settles and no later write has replaced it, so \<open>prev\<close> is
  either absent (an already resolved promise takes its place) or the promise of an
  earlier write to the same path. The parameter \<open>prev\<close> is how that promise settles:
  \<open>None\<close> when it is absent or fulfilled, \<open>Some e\<close> when it is rejected with \<open>e\<close>.
  \<open>then\<close> with one argument passes a rejection on without calling \<open>run\<close>. The disk
  given is the one found when \<open>prev\<close> has settled.
\<close>

datatype errno = EXDEV | EPERM | ENOSPC | EACCES | EIO

datatype fs_call = Mkdir | WriteFile | Rename | CopyFile | Unlink

type_synonym disk = "path \<rightharpoonup> string"

record fs_outcomes =
  mkdir_fails :: "errno option"
  writeFile_fails :: "(errno \<times> string option) option"
  rename_fails :: "errno option"
  copyFile_fails :: "(errno \<times> string option) option"
  unlink_fails :: "errno option"

record write_result =
  rejected :: "errno option"
  disk_after :: disk
  calls :: "fs_call list"

definition tmp_path :: "path \<Rightarrow> string \<Rightarrow> string \<Rightarrow> string \<Rightarrow> path" where
  "tmp_path file pid now rnd = file @ ''.'' @ pid @ ''.'' @ now @ ''.'' @ rnd @ ''.tmp''"

text \<open>The closure \<open>run\<close>.\<close>

definition run :: "fs_outcomes \<Rightarrow> string \<Rightarrow> string \<Rightarrow> string \<Rightarrow> path \<Rightarrow> string \<Rightarrow> disk \<Rightarrow> write_result" where
  "run env pid now rnd file data' d =
     (let tmp = tmp_path file pid now rnd
      in case writeFile_fails env of
           Some (e, left) \<Rightarrow>
             \<lparr>rejected = Some e, disk_after = d(tmp := left), calls = [WriteFile]\<rparr>
         | None \<Rightarrow>
             (let d1 = d(tmp \<mapsto> data')
              in case rename_fails env of
                   None \<Rightarrow>
                     \<lparr>rejected = None, disk_after = d1(tmp := None, file \<mapsto> data'),
                      calls = [WriteFile, Rename]\<rparr>
                 | Some err \<Rightarrow>
                     if err = EXDEV then
                       (case copyFile_fails env of
                          Some (e, left) \<Rightarrow>
                            \<lparr>rejected = Some e, disk_after = d1(file := left),
                             calls = [WriteFile, Rename, CopyFile]\<rparr>
                        | None \<Rightarrow>
                            (let d2 = d1(file \<mapsto> data')
                             in case unlink_fails env of
                                  Some e \<Rightarrow>
                                    \<lparr>rejected = Some e, disk_after = d2,
                                     calls = [WriteFile, Rename, CopyFile, Unlink]\<rparr>
                                | None \<Rightarrow>
                                    \<lparr>rejected = None, disk_after = d2(tmp := None),
                                     calls = [WriteFile, Rename, CopyFile, Unlink]\<rparr>))
                     else \<lparr>rejected = Some err, disk_after = d1,
                           calls = [WriteFile, Rename]\<rparr>))"

definition writeJsonAtomic ::
  "fs_outcomes \<Rightarrow> errno option \<Rightarrow> string \<Rightarrow> string \<Rightarrow> string \<Rightarrow> path \<Rightarrow> string \<Rightarrow> disk
     \<Rightarrow> write_result" where
  "writeJsonAtomic env prev pid now rnd file data' d =
     (case mkdir_fails env of
        Some e \<Rightarrow> \<lparr>rejected = Some e, disk_after = d, calls = [Mkdir]\<rparr>
      | None \<Rightarrow>
          (case prev of
             Some e \<Rightarrow> \<lparr>rejected = Some e, disk_after = d, calls = [Mkdir]\<rparr>
           | None \<Rightarrow>
               (let p = run env pid now rnd file data' d
                in p\<lparr>calls := Mkdir # calls p\<rparr>)))"

definition all_succeed :: fs_outcomes where
  "all_succeed = \<lparr>mkdir_fails = None, writeFile_fails = None, rename_fails = None,
                  copyFile_fails = None, unlink_fails = None\<rparr>"

section \<open>Speaker attribution (meetbot-v2.js, the per-frame transform of startRTCAudioRecording)\<close>

text \<open>
  The \<open>receiverManager\<close> that the transform closes over is the
  \<open>new ReceiverManager()\<close> of the page script of \<open>startRTCAudioRecording\<close>. The
  class declared in that script has the methods listed here and no others; no statement
  adds a property to the instance or to the prototype. Calling a property that an object
  does not have throws a TypeError.
\<close>

definition ReceiverManager :: "string list" where
  "ReceiverManager = [''addReceiver'', ''getReceiverId'', ''mapSourceToStream'',
                      ''getStreamIdBySourceId'', ''getReceiverByStreamId'']"

definition call_method :: "string list \<Rightarrow> string \<Rightarrow> js_error option" where
  "call_method methods name = (if name \<in> set methods then None else Some TypeError)"

text \<open>The peak of the mono frame, \<open>Math.max(maxAmplitude, Math.abs(audioData[i]))\<close>,
  and the test \<open>maxAmplitude < 0.0001\<close>. No float32 value lies between \<open>1/10000\<close> and
  the double nearest to it, so the comparison over the reals is the computed one.\<close>

fun frame_peak :: "real \<Rightarrow> real list \<Rightarrow> real" where
  "frame_peak maxAmplitude [] = maxAmplitude"
| "frame_peak maxAmplitude (x # xs) = frame_peak (max maxAmplitude \<bar>x\<bar>) xs"

definition frame_silent :: "real list \<Rightarrow> bool" where
  "frame_silent audioData = (frame_peak 0 audioData < 1 / 10000)"

text \<open>
  What one run of \<open>transform\<close> does with a frame: the arguments of the call of
  \<open>window.sendParticipantAudioChunk\<close> (participant id and display name) if it is made,
  whether the frame goes on with \<open>controller.enqueue\<close> or is released with
  \<open>frame.close()\<close>, and the error that the \<open>catch\<close> of the body has caught.

  \<open>audioData\<close> is the frame after the down-mix. A silent frame is enqueued and the
  function returns. For any other frame the next statement is
  \<open>receiverManager.getContributingSources(event.receiver)\<close>; when the call throws,
  control passes to the \<open>catch\<close>, which logs the message and closes the frame. The
  statements after the call (the search for the loudest source, the three lookups, the
  placeholder and the send) run only when the call returns; what they do is the parameter
  \<open>attributed\<close>.
\<close>

record transform_result =
  sent :: "(string \<times> string) option"
  enqueued :: bool
  closed :: bool
  caught :: "js_error option"

definition transform :: "string list \<Rightarrow> transform_result \<Rightarrow> real list \<Rightarrow> transform_result" where
  "transform receiverManager attributed audioData =
     (if frame_silent audioData
      then \<lparr>sent = None, enqueued = True, closed = False, caught = None\<rparr>
      else (case call_method receiverManager ''getContributingSources'' of
              Some error \<Rightarrow> \<lparr>sent = None, enqueued = False, closed = True, caught = Some error\<rparr>
            | None \<Rightarrow> attributed))"

section \<open>Proofs\<close>

subsection \<open>The header and the copy loop\<close>

lemma length_write_at [simp]: "off + length bs \<le> length buf \<Longrightarrow> length (write_at bs off buf) = length buf"
  by (simp add: write_at_def)

lemma length_le_bytes [simp]: "length (le_bytes n v) = n"
  by (simp add: le_bytes_def)

lemma le_bytes4: "le_bytes 4 v = [word_of_nat v, word_of_nat (v div 256), word_of_nat (v div 65536), word_of_nat (v div 16777216)]"
proof -
  have "[0..<4] = [0,1,2,3]" by (simp add: upt_rec)
  then show ?thesis by (simp add: le_bytes_def)
qed

lemma le_bytes2: "le_bytes 2 v = [word_of_nat v, word_of_nat (v div 256)]"
proof -
  have "[0..<2] = [0,1]" by (simp add: upt_rec)
  then show ?thesis by (simp add: le_bytes_def)
qed

lemma unat_byte_of_nat: "unat (word_of_nat n :: byte) = n mod 256"
  by (simp add: unat_of_nat)

lemma alloc44: "Buffer_alloc 44 = [0,0,0,0,0,0,0,0,0,0,0,0,0,0,0,0,0,0,0,0,0,0,0,0,0,0,0,0,0,0,0,0,0,0,0,0,0,0,0,0,0,0,0,0]"
  unfolding Buffer_alloc_def by (simp add: numeral_eq_Suc)

lemma wav_header_ok:
  assumes "36 + S < 2 ^ 32" "r < 2 ^ 31"
  shows "wav_header S r = Inr (ascii ''RIFF'' @ le_bytes 4 (36 + S) @ ascii ''WAVEfmt '' @ le_bytes 4 16
     @ le_bytes 2 1 @ le_bytes 2 1 @ le_bytes 4 r @ le_bytes 4 (r * 2) @ le_bytes 2 2 @ le_bytes 2 16
     @ ascii ''data'' @ le_bytes 4 S)"
proof -
  have b: "\<not> 36 + S > 2 ^ 32 - 1" "\<not> r > 2 ^ 32 - 1" "\<not> r * 2 > 2 ^ 32 - 1" "\<not> S > 2 ^ 32 - 1"
    using assms by simp_all
  show ?thesis
    unfolding wav_header_def Let_def alloc44 Buffer_write_def
    using assms by (simp add: b err_bind_def writeUInt32LE_def writeUInt16LE_def write_at_def le_bytes4 le_bytes2 ascii_def
        del: One_nat_def)
qed

lemma le32_decompose:
  assumes "v < (2::nat) ^ 32"
  shows "v mod 256 + 256 * (v div 256 mod 256) + 65536 * (v div 65536 mod 256)
           + 16777216 * (v div 16777216 mod 256) = v"
proof -
  define a where "a = v div 256"
  define b where "b = a div 256"
  define c where "c = b div 256"
  have vb: "v div 65536 = b"
    unfolding b_def a_def by (simp add: div_mult2_eq [symmetric])
  have vc: "v div 16777216 = c"
    unfolding c_def b_def a_def by (simp add: div_mult2_eq [symmetric])
  have "v < 16777216 * 256" using assms by simp
  then have "a < 16777216" unfolding a_def by (rule less_mult_imp_div_less)
  then have "a < 65536 * 256" by simp
  then have "b < 65536" unfolding b_def by (rule less_mult_imp_div_less)
  then have "b < 256 * 256" by simp
  then have "c < 256" unfolding c_def by (rule less_mult_imp_div_less)
  then have c: "c mod 256 = c" by simp
  have e1: "v = v mod 256 + 256 * a" unfolding a_def by simp
  have e2: "a = a mod 256 + 256 * b" unfolding b_def by simp
  have e3: "b = b mod 256 + 256 * c" unfolding c_def by simp
  have "v mod 256 + 256 * (a mod 256) + 65536 * (b mod 256) + 16777216 * c = v"
    using e1 e2 e3 by linarith
  then show ?thesis by (simp add: vb vc c a_def [symmetric])
qed

lemma read_le_bytes4:
  assumes "v < 2 ^ 32" "length pre = off"
  shows "readUInt32LE (pre @ le_bytes 4 v @ post) off = v"
proof -
  have nth: "\<And>k. k < 4 \<Longrightarrow> (pre @ le_bytes 4 v @ post) ! (off + k) = le_bytes 4 v ! k"
    using assms(2) by (simp add: nth_append)
  have "readUInt32LE (pre @ le_bytes 4 v @ post) off =
      v mod 256 + 256 * (v div 256 mod 256) + 65536 * (v div 65536 mod 256) + 16777216 * (v div 16777216 mod 256)"
    using nth[of 0] nth[of 1] nth[of 2] nth[of 3]
    by (simp add: readUInt32LE_def le_bytes4 unat_byte_of_nat)
  also have "\<dots> = v" using assms(1) by (rule le32_decompose)
  finally show ?thesis .
qed

lemma bufSize_pos: "0 < bufSize"
  by (simp add: bufSize_def)

lemma take_drop_rejoin: "take n d @ drop (length (take n d)) d = d"
  by (metis append_take_drop_id length_take min.commute take_all_iff linorder_le_cases min_def)

lemma pwrite_append: "pwrite bs (length c) c = c @ bs"
  by (simp add: pwrite_def)

lemma copy_loop_result:
  assumes "fds s rawFd = Some \<lparr>fd_path = rp, fd_pos = rpos, fd_flag = O_R\<rparr>"
    and "fds s wavFd = Some \<lparr>fd_path = wp, fd_pos = length wav, fd_flag = O_W\<rparr>"
    and "rawFd \<noteq> wavFd" and "rp \<noteq> wp"
    and "files s rp = Some raw" and "files s wp = Some wav" and "rpos \<le> length raw"
  shows "\<exists>s'. copy_loop rawFd wavFd s = Some (Inr s')
           \<and> files s' = (files s)(wp \<mapsto> wav @ drop rpos raw)
           \<and> fds s' = (fds s)(rawFd \<mapsto> \<lparr>fd_path = rp, fd_pos = length raw, fd_flag = O_R\<rparr>,
                               wavFd \<mapsto> \<lparr>fd_path = wp, fd_pos = length wav + (length raw - rpos), fd_flag = O_W\<rparr>)
           \<and> next_fd s' = next_fd s \<and> writers s' = writers s \<and> console s' = console s"
  using assms
proof (induction "length raw - rpos" arbitrary: s rpos wav rule: less_induct)
  case less
  define got where "got = take bufSize (drop rpos raw)"
  define s1 where "s1 = s\<lparr>fds := (fds s)(rawFd \<mapsto> \<lparr>fd_path = rp, fd_pos = rpos + length got, fd_flag = O_R\<rparr>)\<rparr>"
  have rd: "readSync rawFd bufSize s = Inr (got, s1)"
    using less.prems by (simp add: readSync_def content_def got_def s1_def Let_def)
  show ?case
  proof (cases "got = []")
    case True
    then have "drop rpos raw = []"
      using bufSize_pos by (auto simp: got_def take_eq_Nil)
    then have rp_end: "rpos = length raw" using less.prems by simp
    have "copy_loop rawFd wavFd s = Some (Inr s1)"
      by (subst copy_loop.simps) (simp add: rd True)
    moreover have "fds s1 = (fds s)(rawFd \<mapsto> \<lparr>fd_path = rp, fd_pos = length raw, fd_flag = O_R\<rparr>,
                               wavFd \<mapsto> \<lparr>fd_path = wp, fd_pos = length wav + (length raw - rpos), fd_flag = O_W\<rparr>)"
      using less.prems True rp_end by (auto simp: s1_def fun_eq_iff)
    moreover have "files s1 = (files s)(wp \<mapsto> wav @ drop rpos raw)"
      using less.prems rp_end by (auto simp: s1_def fun_eq_iff)
    ultimately show ?thesis by (simp add: s1_def)
  next
    case False
    define s2 where "s2 = s1\<lparr>files := (files s1)(wp \<mapsto> wav @ got),
        fds := (fds s1)(wavFd \<mapsto> \<lparr>fd_path = wp, fd_pos = length wav + length got, fd_flag = O_W\<rparr>)\<rparr>"
    have wr: "writeSync wavFd got s1 = Inr s2"
      using less.prems by (simp add: writeSync_def s1_def s2_def content_def pwrite_append)
    have step: "copy_loop rawFd wavFd s = copy_loop rawFd wavFd s2"
      by (subst copy_loop.simps) (simp add: rd wr False)
    have lg: "0 < length got" "rpos + length got \<le> length raw"
      using False less.prems by (auto simp: got_def)
    have "\<exists>s'. copy_loop rawFd wavFd s2 = Some (Inr s')
           \<and> files s' = (files s2)(wp \<mapsto> (wav @ got) @ drop (rpos + length got) raw)
           \<and> fds s' = (fds s2)(rawFd \<mapsto> \<lparr>fd_path = rp, fd_pos = length raw, fd_flag = O_R\<rparr>,
                               wavFd \<mapsto> \<lparr>fd_path = wp, fd_pos = length (wav @ got) + (length raw - (rpos + length got)), fd_flag = O_W\<rparr>)
           \<and> next_fd s' = next_fd s2 \<and> writers s' = writers s2 \<and> console s' = console s2"
    proof (rule less.hyps)
      show "length raw - (rpos + length got) < length raw - rpos" using lg by linarith
      show "fds s2 rawFd = Some \<lparr>fd_path = rp, fd_pos = rpos + length got, fd_flag = O_R\<rparr>"
        using less.prems by (simp add: s2_def s1_def)
      show "fds s2 wavFd = Some \<lparr>fd_path = wp, fd_pos = length (wav @ got), fd_flag = O_W\<rparr>"
        by (simp add: s2_def)
      show "rawFd \<noteq> wavFd" "rp \<noteq> wp" by fact+
      show "files s2 rp = Some raw" using less.prems by (simp add: s2_def s1_def)
      show "files s2 wp = Some (wav @ got)" by (simp add: s2_def)
      show "rpos + length got \<le> length raw" by fact
    qed
    then obtain s' where s': "copy_loop rawFd wavFd s2 = Some (Inr s')"
      "files s' = (files s2)(wp \<mapsto> (wav @ got) @ drop (rpos + length got) raw)"
      "fds s' = (fds s2)(rawFd \<mapsto> \<lparr>fd_path = rp, fd_pos = length raw, fd_flag = O_R\<rparr>,
                               wavFd \<mapsto> \<lparr>fd_path = wp, fd_pos = length (wav @ got) + (length raw - (rpos + length got)), fd_flag = O_W\<rparr>)"
      "next_fd s' = next_fd s2" "writers s' = writers s2" "console s' = console s2"
      by blast
    have "got @ drop (rpos + length got) raw = drop rpos raw"
      using take_drop_rejoin [of bufSize "drop rpos raw"] by (simp add: got_def add.commute)
    then have f: "files s' = (files s)(wp \<mapsto> wav @ drop rpos raw)"
      using s'(2) by (simp add: s2_def s1_def)
    have "length (wav @ got) + (length raw - (rpos + length got)) = length wav + (length raw - rpos)"
      using lg by simp
    then have d: "fds s' = (fds s)(rawFd \<mapsto> \<lparr>fd_path = rp, fd_pos = length raw, fd_flag = O_R\<rparr>,
                               wavFd \<mapsto> \<lparr>fd_path = wp, fd_pos = length wav + (length raw - rpos), fd_flag = O_W\<rparr>)"
      using s'(3) less.prems(3) by (auto simp: s2_def s1_def fun_eq_iff)
    show ?thesis
      using step s'(1,4,5,6) f d by (simp add: s2_def s1_def)
  qed
qed

lemma finalizeRawToWav_ok:
  assumes raw: "files s rawP = Some raw" and ne: "rawP \<noteq> wavP"
    and S: "36 + length raw < 2 ^ 32" and r: "r < 2 ^ 31"
  shows "\<exists>s' hdr. finalizeRawToWav rawP wavP r s = Some (Inr s')
           \<and> hdr = wav_bytes (length raw) r \<and> length hdr = 44
           \<and> files s' = (files s)(wavP \<mapsto> hdr @ raw)
           \<and> fds s' = (fds s)(next_fd s := None, Suc (next_fd s) := None)
           \<and> writers s' = writers s \<and> console s' = console s"
proof -
  define hdr where "hdr = wav_bytes (length raw) r"
  have h: "wav_header (length raw) r = Inr hdr"
    unfolding hdr_def wav_bytes_def using S r by (rule wav_header_ok)
  have lh: "length hdr = 44"
    by (simp add: hdr_def wav_bytes_def ascii_def)
  define wfd where "wfd = next_fd s"
  define s1 where "s1 = snd (openSync_w wavP s)"
  have o1: "openSync_w wavP s = (wfd, s1)"
    by (simp add: s1_def wfd_def openSync_w_def)
  define s2 where "s2 = s1\<lparr>files := (files s1)(wavP \<mapsto> hdr),
      fds := (fds s1)(wfd \<mapsto> \<lparr>fd_path = wavP, fd_pos = length hdr, fd_flag = O_W\<rparr>)\<rparr>"
  have w1: "writeWavHeader wfd (length raw) r s1 = Inr s2"
    by (simp add: writeWavHeader_def h writeSync_def s1_def openSync_w_def wfd_def s2_def
        content_def pwrite_def)
  define s3 where "s3 = s2\<lparr>fds := (fds s2)(Suc wfd \<mapsto> \<lparr>fd_path = rawP, fd_pos = 0, fd_flag = O_R\<rparr>),
      next_fd := Suc (Suc wfd)\<rparr>"
  have f2: "files s2 rawP = Some raw"
    using raw ne by (simp add: s2_def s1_def openSync_w_def)
  have o2: "openSync_r rawP s2 = Inr (Suc wfd, s3)"
    using f2 by (simp add: openSync_r_def s3_def s2_def s1_def openSync_w_def wfd_def)
  have "\<exists>s'. copy_loop (Suc wfd) wfd s3 = Some (Inr s')
           \<and> files s' = (files s3)(wavP \<mapsto> hdr @ drop 0 raw)
           \<and> fds s' = (fds s3)(Suc wfd \<mapsto> \<lparr>fd_path = rawP, fd_pos = length raw, fd_flag = O_R\<rparr>,
                               wfd \<mapsto> \<lparr>fd_path = wavP, fd_pos = length hdr + (length raw - 0), fd_flag = O_W\<rparr>)
           \<and> next_fd s' = next_fd s3 \<and> writers s' = writers s3 \<and> console s' = console s3"
  proof (rule copy_loop_result)
    show "fds s3 (Suc wfd) = Some \<lparr>fd_path = rawP, fd_pos = 0, fd_flag = O_R\<rparr>"
      by (simp add: s3_def)
    show "fds s3 wfd = Some \<lparr>fd_path = wavP, fd_pos = length hdr, fd_flag = O_W\<rparr>"
      by (simp add: s3_def s2_def)
    show "Suc wfd \<noteq> wfd" by simp
    show "rawP \<noteq> wavP" by fact
    show "files s3 rawP = Some raw" using f2 by (simp add: s3_def)
    show "files s3 wavP = Some hdr" by (simp add: s3_def s2_def)
    show "0 \<le> length raw" by simp
  qed
  then obtain s4 where s4: "copy_loop (Suc wfd) wfd s3 = Some (Inr s4)"
      "files s4 = (files s3)(wavP \<mapsto> hdr @ raw)"
      "fds s4 = (fds s3)(Suc wfd \<mapsto> \<lparr>fd_path = rawP, fd_pos = length raw, fd_flag = O_R\<rparr>,
                               wfd \<mapsto> \<lparr>fd_path = wavP, fd_pos = length hdr + length raw, fd_flag = O_W\<rparr>)"
      "writers s4 = writers s3" "console s4 = console s3"
    by auto
  define s5 where "s5 = s4\<lparr>fds := (fds s4)(Suc wfd := None)\<rparr>"
  define s6 where "s6 = s5\<lparr>fds := (fds s5)(wfd := None)\<rparr>"
  have c1: "closeSync (Suc wfd) s4 = Inr s5"
    by (simp add: closeSync_def s4(3) s5_def)
  have c2: "closeSync wfd s5 = Inr s6"
    by (simp add: closeSync_def s4(3) s5_def s6_def)
  have fin: "finalizeRawToWav rawP wavP r s = Some (Inr s6)"
    by (simp add: finalizeRawToWav_def statSync_size_def raw o1 w1 o2 s4(1) c1 c2)
  have "files s6 = (files s)(wavP \<mapsto> hdr @ raw)"
    by (simp add: s6_def s5_def s4(2) s3_def s2_def s1_def openSync_w_def)
  moreover have "fds s6 = (fds s)(next_fd s := None, Suc (next_fd s) := None)"
    by (auto simp: s6_def s5_def s4(3) s3_def s2_def s1_def openSync_w_def wfd_def fun_eq_iff)
  moreover have "writers s6 = writers s" "console s6 = console s"
    by (simp_all add: s6_def s5_def s4(4,5) s3_def s2_def s1_def openSync_w_def)
  ultimately show ?thesis using fin hdr_def lh by blast
qed

lemma length_wav_bytes: "length (wav_bytes S r) = 44"
  by (simp add: wav_bytes_def ascii_def)

lemma wav_bytes_payload_field: "S < 2 ^ 32 \<Longrightarrow> readUInt32LE (wav_bytes S r @ raw) 40 = S"
proof -
  assume b: "S < 2 ^ 32"
  define pre where "pre = ascii ''RIFF'' @ le_bytes 4 (36 + S) @ ascii ''WAVEfmt '' @ le_bytes 4 16
     @ le_bytes 2 1 @ le_bytes 2 1 @ le_bytes 4 r @ le_bytes 4 (r * 2) @ le_bytes 2 2
     @ le_bytes 2 16 @ ascii ''data''"
  have l: "length pre = 40" by (simp add: pre_def ascii_def)
  have "wav_bytes S r @ raw = pre @ le_bytes 4 S @ raw" by (simp add: wav_bytes_def pre_def)
  then show ?thesis using read_le_bytes4 [OF b l] by simp
qed

lemma wav_bytes_riff_field: "36 + S < 2 ^ 32 \<Longrightarrow> readUInt32LE (wav_bytes S r @ raw) 4 = 36 + S"
proof -
  assume b: "36 + S < 2 ^ 32"
  have l: "length (ascii ''RIFF'') = 4" by (simp add: ascii_def)
  have "wav_bytes S r @ raw = ascii ''RIFF'' @ le_bytes 4 (36 + S) @ (ascii ''WAVEfmt '' @ le_bytes 4 16
     @ le_bytes 2 1 @ le_bytes 2 1 @ le_bytes 4 r @ le_bytes 4 (r * 2) @ le_bytes 2 2
     @ le_bytes 2 16 @ ascii ''data'' @ le_bytes 4 S @ raw)" by (simp add: wav_bytes_def)
  then show ?thesis using read_le_bytes4 [OF b l] by simp
qed

lemma wav_bytes_rate_field: "r < 2 ^ 32 \<Longrightarrow> readUInt32LE (wav_bytes S r @ raw) 24 = r"
proof -
  assume b: "r < 2 ^ 32"
  define pre where "pre = ascii ''RIFF'' @ le_bytes 4 (36 + S) @ ascii ''WAVEfmt '' @ le_bytes 4 16
     @ le_bytes 2 1 @ le_bytes 2 1"
  have l: "length pre = 24" by (simp add: pre_def ascii_def)
  have "wav_bytes S r @ raw = pre @ le_bytes 4 r @ (le_bytes 4 (r * 2) @ le_bytes 2 2
     @ le_bytes 2 16 @ ascii ''data'' @ le_bytes 4 S @ raw)" by (simp add: wav_bytes_def pre_def)
  then show ?thesis using read_le_bytes4 [OF b l] by simp
qed

text \<open>
  Claim C2, as amended. For a non-empty raw artifact of \<open>S\<close> bytes with
  \<open>36 + S < 2^32\<close>, a sample rate that is a natural number below \<open>2^31\<close> and a
  container path different from the raw path, finalization returns normally and leaves a
  container of exactly \<open>S + 44\<close> bytes whose bytes 40-43 read \<open>S\<close> and whose bytes 4-7
  read \<open>36 + S\<close> as little-endian 32-bit integers, and whose bytes from 44 on are the
  raw artifact, which itself is left as it was.
\<close>

theorem finalizeRawToWav_container:
  assumes "files s rawP = Some raw" and "rawP \<noteq> wavP"
    and "36 + length raw < 2 ^ 32" and "r < 2 ^ 31" and "raw \<noteq> []"
  shows "\<exists>s' wav. finalizeRawToWav rawP wavP r s = Some (Inr s')
           \<and> files s' wavP = Some wav \<and> files s' rawP = Some raw
           \<and> length wav = length raw + 44
           \<and> readUInt32LE wav 40 = length raw
           \<and> readUInt32LE wav 4 = 36 + length raw
           \<and> drop 44 wav = raw"
proof -
  obtain s' hdr where f: "finalizeRawToWav rawP wavP r s = Some (Inr s')"
      and hdr: "hdr = wav_bytes (length raw) r"
      and fl: "files s' = (files s)(wavP \<mapsto> hdr @ raw)"
    using finalizeRawToWav_ok [OF assms(1-4)] by blast
  have "files s' wavP = Some (hdr @ raw)" using fl by simp
  moreover have "files s' rawP = Some raw" using fl assms(1,2) by simp
  moreover have "length (hdr @ raw) = length raw + 44"
    by (simp add: hdr length_wav_bytes)
  moreover have "readUInt32LE (hdr @ raw) 40 = length raw"
    unfolding hdr using assms(3) by (intro wav_bytes_payload_field) simp
  moreover have "readUInt32LE (hdr @ raw) 4 = 36 + length raw"
    unfolding hdr using assms(3) by (rule wav_bytes_riff_field)
  moreover have "drop 44 (hdr @ raw) = raw"
    by (simp add: hdr length_wav_bytes)
  ultimately show ?thesis using f by blast
qed

theorem finalizeRawToWav_container_witness:
  "\<exists>s' wav. finalizeRawToWav ''t.raw'' ''t.wav'' 48000
        (process_start\<lparr>files := [''t.raw'' \<mapsto> [1, 0, 255, 127]]\<rparr>) = Some (Inr s')
      \<and> files s' ''t.wav'' = Some wav \<and> files s' ''t.raw'' = Some [1, 0, 255, 127]
      \<and> length wav = 48 \<and> readUInt32LE wav 40 = 4 \<and> readUInt32LE wav 4 = 40
      \<and> drop 44 wav = [1, 0, 255, 127]"
proof -
  have len: "length [1, 0, 255, 127 :: byte] = 4" by simp
  have a1: "files (process_start\<lparr>files := [''t.raw'' \<mapsto> [1, 0, 255, 127]]\<rparr>) ''t.raw'' = Some [1, 0, 255, 127]"
    by simp
  have a2: "''t.raw'' \<noteq> ''t.wav''" by simp
  have a3: "36 + length [1, 0, 255, 127 :: byte] < 2 ^ 32" by simp
  have a4: "(48000 :: nat) < 2 ^ 31" by simp
  have a5: "[1, 0, 255, 127 :: byte] \<noteq> []" by simp
  show ?thesis
    using finalizeRawToWav_container [OF a1 a2 a3 a4 a5] unfolding len by simp
qed

text \<open>
  Claim C2 as stated (every size, every rate) fails for a raw artifact of \<open>2^32 - 36\<close>
  bytes: \<open>writeUInt32LE(36 + dataLength, 4)\<close> throws, and what is left at the container
  path is the file that \<open>openSync(wavPath, 'w')\<close> has just truncated, of 0 bytes.
\<close>

theorem finalizeRawToWav_4GiB_counterexample:
  "thrown_error (finalizeRawToWav ''t.raw'' ''t.wav'' 16000
        (process_start\<lparr>files := [''t.raw'' \<mapsto> replicate 4294967260 0]\<rparr>)) = Some ERR_OUT_OF_RANGE
   \<and> file_after (finalizeRawToWav ''t.raw'' ''t.wav'' 16000
        (process_start\<lparr>files := [''t.raw'' \<mapsto> replicate 4294967260 0]\<rparr>)) ''t.wav'' = Some []"
  by (simp add: finalizeRawToWav_def statSync_size_def openSync_w_def writeWavHeader_def
      wav_header_def writeUInt32LE_def err_bind_def Let_def thrown_error_def file_after_def
      state_after_def process_start_def)

subsection \<open>Opening, writing and closing writers\<close>

lemma closeWriter_ok:
  assumes w: "map_of (writers s) key = Some w" and d: "fds s (fd w) = Some d"
    and raw: "files s (rawPath w) = Some raw" and ne: "rawPath w \<noteq> wavPath w"
    and S: "36 + length raw < 2 ^ 32" and r: "rate_or (sample_rate (meta w)) rate < 2 ^ 31"
  shows "\<exists>s'. closeWriter key rate s = Some (Inr s')
           \<and> files s' = (files s)(wavPath w \<mapsto> wav_bytes (length raw) (rate_or (sample_rate (meta w)) rate) @ raw)
           \<and> writers s' = AList.delete key (writers s) \<and> console s' = console s"
proof -
  define s1 where "s1 = s\<lparr>fds := (fds s)(fd w := None)\<rparr>"
  have c: "closeSync (fd w) s = Inr s1" using d by (simp add: closeSync_def s1_def)
  have raw1: "files s1 (rawPath w) = Some raw" using raw by (simp add: s1_def)
  obtain s2 hdr where f: "finalizeRawToWav (rawPath w) (wavPath w) (rate_or (sample_rate (meta w)) rate) s1 = Some (Inr s2)"
      and hdr: "hdr = wav_bytes (length raw) (rate_or (sample_rate (meta w)) rate)"
      and fl: "files s2 = (files s1)(wavPath w \<mapsto> hdr @ raw)"
      and ws: "writers s2 = writers s1" and cs: "console s2 = console s1"
    using finalizeRawToWav_ok [OF raw1 ne S r] by blast
  have "closeWriter key rate s = Some (Inr (s2\<lparr>writers := AList.delete key (writers s2)\<rparr>))"
    by (simp add: closeWriter_def w c f Let_def)
  then show ?thesis using fl ws cs hdr by (simp add: s1_def)
qed

lemma openWriter_state:
  "openWriter key dir m s = s\<lparr>files := (files s)(path_join dir (''track_'' @ sanitize_key key @ ''.pcm16le.raw'') \<mapsto> []),
      fds := (fds s)(next_fd s \<mapsto> \<lparr>fd_path = path_join dir (''track_'' @ sanitize_key key @ ''.pcm16le.raw''), fd_pos = 0, fd_flag = O_W\<rparr>),
      next_fd := Suc (next_fd s),
      writers := AList.update key \<lparr>fd = next_fd s, rawPath = path_join dir (''track_'' @ sanitize_key key @ ''.pcm16le.raw''),
         wavPath = replace_first ''.raw'' ''.wav'' (path_join dir (''track_'' @ sanitize_key key @ ''.pcm16le.raw'')),
         bytes = 0, meta = m\<rparr> (writers s)\<rparr>"
  by (simp add: openWriter_def openSync_w_def Let_def)

lemma k1_paths:
  "path_join ''rec'' (''track_'' @ sanitize_key ''k1'' @ ''.pcm16le.raw'') = ''rec/track_k1.pcm16le.raw''"
  "replace_first ''.raw'' ''.wav'' ''rec/track_k1.pcm16le.raw'' = ''rec/track_k1.pcm16le.wav''"
  by (simp_all add: path_join_def sanitize_key_def safe_char_def)

lemma k1_opened:
  "openWriter ''k1'' ''rec'' m process_start =
     \<lparr>files = [''rec/track_k1.pcm16le.raw'' \<mapsto> []],
      fds = [3 \<mapsto> \<lparr>fd_path = ''rec/track_k1.pcm16le.raw'', fd_pos = 0, fd_flag = O_W\<rparr>],
      next_fd = 4,
      writers = [(''k1'', \<lparr>fd = 3, rawPath = ''rec/track_k1.pcm16le.raw'',
                          wavPath = ''rec/track_k1.pcm16le.wav'', bytes = 0, meta = m\<rparr>)],
      console = []\<rparr>"
  unfolding openWriter_state k1_paths by (simp add: process_start_def)

lemma k1_written:
  "writeChunk ''k1'' [1, 0, 255, 127] (openWriter ''k1'' ''rec'' m process_start) =
     Inr \<lparr>files = [''rec/track_k1.pcm16le.raw'' \<mapsto> [1, 0, 255, 127]],
      fds = [3 \<mapsto> \<lparr>fd_path = ''rec/track_k1.pcm16le.raw'', fd_pos = 4, fd_flag = O_W\<rparr>],
      next_fd = 4,
      writers = [(''k1'', \<lparr>fd = 3, rawPath = ''rec/track_k1.pcm16le.raw'',
                          wavPath = ''rec/track_k1.pcm16le.wav'', bytes = 4, meta = m\<rparr>)],
      console = []\<rparr>"
  unfolding k1_opened by (simp add: writeChunk_def writeSync_def content_def pwrite_def eval_nat_numeral)

lemma k1_closed:
  assumes "sample_rate m = None" and "length c = L" and "36 + L < 2 ^ 32"
  shows "\<exists>s'. closeWriter ''k1'' 16000
            \<lparr>files = [''rec/track_k1.pcm16le.raw'' \<mapsto> c],
             fds = [3 \<mapsto> \<lparr>fd_path = ''rec/track_k1.pcm16le.raw'', fd_pos = p, fd_flag = O_W\<rparr>],
             next_fd = 4,
             writers = [(''k1'', \<lparr>fd = 3, rawPath = ''rec/track_k1.pcm16le.raw'',
                          wavPath = ''rec/track_k1.pcm16le.wav'', bytes = n, meta = m\<rparr>)],
             console = []\<rparr> = Some (Inr s')
         \<and> files s' = [''rec/track_k1.pcm16le.raw'' \<mapsto> c,
                        ''rec/track_k1.pcm16le.wav'' \<mapsto> wav_bytes L 16000 @ c]"
  using assms
    closeWriter_ok [where s = "\<lparr>files = [''rec/track_k1.pcm16le.raw'' \<mapsto> c],
             fds = [3 \<mapsto> \<lparr>fd_path = ''rec/track_k1.pcm16le.raw'', fd_pos = p, fd_flag = O_W\<rparr>],
             next_fd = 4,
             writers = [(''k1'', \<lparr>fd = 3, rawPath = ''rec/track_k1.pcm16le.raw'',
                          wavPath = ''rec/track_k1.pcm16le.wav'', bytes = n, meta = m\<rparr>)],
             console = []\<rparr>" and key = "''k1''"
        and w = "\<lparr>fd = 3, rawPath = ''rec/track_k1.pcm16le.raw'',
                          wavPath = ''rec/track_k1.pcm16le.wav'', bytes = n, meta = m\<rparr>"
        and d = "\<lparr>fd_path = ''rec/track_k1.pcm16le.raw'', fd_pos = p, fd_flag = O_W\<rparr>"
        and raw = c and rate = 16000]
  by (auto simp: rate_or_def)

lemma readUInt32LE_16000: "readUInt32LE (wav_bytes S 16000 @ raw) 24 = 16000"
  by (rule wav_bytes_rate_field) simp

text \<open>
  Claim C10. Once \<open>closeWriter(key)\<close> has returned, the writers table has no entry for
  the key; a later \<open>writeChunk\<close> or \<open>closeWriter\<close> for that key returns the state
  untouched, and the end-of-run loop reaching that key does nothing for it. So the raw
  artifact of a track is finalized at most once.
\<close>

theorem closeWriter_once:
  assumes "closeWriter key rate s = Some (Inr s')"
  shows "map_of (writers s') key = None
       \<and> key \<notin> set (map fst (writers s'))
       \<and> writeChunk key u8 s' = Inr s'
       \<and> closeWriter key rate' s' = Some (Inr s')
       \<and> finalize_loop (key # keys) s' = finalize_loop keys s'"
proof -
  have gone: "map_of (writers s') key = None"
  proof (cases "map_of (writers s) key")
    case None
    then show ?thesis using assms by (simp add: closeWriter_def)
  next
    case (Some w)
    then obtain s2 where "s' = s2\<lparr>writers := AList.delete key (writers s2)\<rparr>"
      using assms by (auto simp: closeWriter_def Let_def split: sum.splits option.splits)
    then show ?thesis by (simp add: delete_conv')
  qed
  then have "key \<notin> set (map fst (writers s'))"
    by (simp add: map_of_eq_None_iff)
  moreover have "writeChunk key u8 s' = Inr s'"
    using gone by (simp add: writeChunk_def)
  moreover have c: "\<And>r. closeWriter key r s' = Some (Inr s')"
    using gone by (simp add: closeWriter_def)
  moreover have "finalize_loop (key # keys) s' = finalize_loop keys s'"
    by (simp add: c)
  ultimately show ?thesis using gone c by blast
qed

theorem closeWriter_once_witness:
  "\<exists>s'. closeWriter ''k1'' 16000 (openWriter ''k1'' ''rec'' (hook_meta ''t1'' None None) process_start) = Some (Inr s')
      \<and> map_of (writers s') ''k1'' = None
      \<and> ''k1'' \<notin> set (map fst (writers s'))
      \<and> writeChunk ''k1'' [1, 0] s' = Inr s'
      \<and> closeWriter ''k1'' 16000 s' = Some (Inr s')
      \<and> finalize_loop [''k1''] s' = finalize_loop [] s'"
proof -
  obtain s' where c: "closeWriter ''k1'' 16000 (openWriter ''k1'' ''rec'' (hook_meta ''t1'' None None) process_start) = Some (Inr s')"
    using k1_closed [of "hook_meta ''t1'' None None" "[]" 0 0 0]
    unfolding k1_opened by (auto simp: hook_meta_def)
  show ?thesis
    using c closeWriter_once [OF c, of "[1, 0]" 16000 "[]"] by blast
qed

text \<open>
  Claim C6 against \<open>closeWriter\<close>: a track that is opened and closed without a single
  chunk still gets a container file, the bare 44-byte header, and its empty raw file
  stays on disk. The participant loop of \<open>closeAudioFiles\<close> does what the claim says
  (lemma \<open>close_participant_file_empty\<close> below).
\<close>

theorem closeWriter_finalizes_empty_artifact:
  "file_after (closeWriter ''k1'' 16000 (openWriter ''k1'' ''rec'' (hook_meta ''t1'' None None) process_start))
      ''rec/track_k1.pcm16le.wav'' = Some (wav_bytes 0 16000)
   \<and> file_after (closeWriter ''k1'' 16000 (openWriter ''k1'' ''rec'' (hook_meta ''t1'' None None) process_start))
      ''rec/track_k1.pcm16le.raw'' = Some []"
proof -
  obtain s' where c: "closeWriter ''k1'' 16000 (openWriter ''k1'' ''rec'' (hook_meta ''t1'' None None) process_start) = Some (Inr s')"
     and f: "files s' = [''rec/track_k1.pcm16le.raw'' \<mapsto> [], ''rec/track_k1.pcm16le.wav'' \<mapsto> wav_bytes 0 16000]"
    using k1_closed [of "hook_meta ''t1'' None None" "[]" 0 0 0]
    unfolding k1_opened by (auto simp: hook_meta_def)
  show ?thesis
    by (simp add: c f file_after_def state_after_def)
qed

text \<open>The participant loop of \<open>closeAudioFiles\<close> on an empty raw file: no container
  is written and the raw file is removed.\<close>

lemma close_participant_file_empty:
  assumes "files s rawP = Some []"
  shows "close_participant_file rawP wavP s = Some (s\<lparr>files := (files s)(rawP := None)\<rparr>)"
  using assms
  by (simp add: close_participant_file_def statSync_size_def unlinkSync_def)

text \<open>
  Claim C7 against \<open>closeWriter\<close>: the page hook opens the writer before any frame is
  decoded and reports the rate of the first frame through the \<open>track-meta\<close> event,
  which updates the session's track table only. The writer's own \<open>meta\<close> never
  receives it, so the header field at bytes 24-27 reads 16000 although the session has
  recorded 48000 for the same key.
\<close>

theorem closeWriter_ignores_discovered_rate:
  "header_rate_after
      (webrtcCloseTrack ''k1''
        (state_of (webrtcWriteTrack ''k1'' [1, 0, 255, 127]
          (webrtcOpenTrack ''rec'' ''k1'' (hook_meta ''t1'' (Some ''s1'') None) process_start))))
      ''rec/track_k1.pcm16le.wav'' = Some 16000
   \<and> track_rate
      (onTrackMeta (Some ''k1'') (Some 48000) (Some 1)
        (onTrackOpen ''2024-01-01T00:00:00.000Z'' (Some ''k1'') (Some ''t1'') (Some ''s1'') None \<lparr>tracks = []\<rparr>))
      ''k1'' = Some 48000"
proof -
  let ?s = "state_of (webrtcWriteTrack ''k1'' [1, 0, 255, 127]
          (webrtcOpenTrack ''rec'' ''k1'' (hook_meta ''t1'' (Some ''s1'') None) process_start))"
  have st: "?s = \<lparr>files = [''rec/track_k1.pcm16le.raw'' \<mapsto> [1, 0, 255, 127]],
      fds = [3 \<mapsto> \<lparr>fd_path = ''rec/track_k1.pcm16le.raw'', fd_pos = 4, fd_flag = O_W\<rparr>],
      next_fd = 4,
      writers = [(''k1'', \<lparr>fd = 3, rawPath = ''rec/track_k1.pcm16le.raw'',
                          wavPath = ''rec/track_k1.pcm16le.wav'', bytes = 4, meta = hook_meta ''t1'' (Some ''s1'') None\<rparr>)],
      console = []\<rparr>"
    by (simp add: webrtcWriteTrack_def webrtcOpenTrack_def k1_written state_of_def)
  obtain s' where c: "closeWriter ''k1'' 16000 ?s = Some (Inr s')"
     and f: "files s' ''rec/track_k1.pcm16le.wav'' = Some (wav_bytes 4 16000 @ [1, 0, 255, 127])"
    using k1_closed [of "hook_meta ''t1'' (Some ''s1'') None" "[1, 0, 255, 127]" 4 4 4]
    unfolding st by (auto simp: hook_meta_def)
  have "header_rate_after (webrtcCloseTrack ''k1'' ?s) ''rec/track_k1.pcm16le.wav'' = Some 16000"
    by (simp add: webrtcCloseTrack_def c f header_rate_after_def file_after_def state_after_def
        readUInt32LE_16000)
  moreover have "track_rate
      (onTrackMeta (Some ''k1'') (Some 48000) (Some 1)
        (onTrackOpen ''2024-01-01T00:00:00.000Z'' (Some ''k1'') (Some ''t1'') (Some ''s1'') None \<lparr>tracks = []\<rparr>))
      ''k1'' = Some 48000"
    by (simp add: track_rate_def onTrackMeta_def onTrackOpen_def or_null_def truthy_str_def
        truthy_num_def Let_def)
  ultimately show ?thesis by simp
qed

text \<open>
  Claim C8, as amended. A chunk for a key without an open writer leaves the whole state
  as it is (files, descriptors, writers table and console) and does not throw; nothing
  is logged.
\<close>

theorem writeChunk_unknown_key:
  assumes "map_of (writers s) key = None"
  shows "writeChunk key u8arr s = Inr s"
  using assms by (simp add: writeChunk_def)

theorem writeChunk_unknown_key_witness:
  "map_of (writers process_start) ''late'' = None
   \<and> writeChunk ''late'' [1, 2, 3, 4] process_start = Inr process_start"
  using writeChunk_unknown_key [of process_start "''late''" "[1, 2, 3, 4]"]
  by (simp add: process_start_def)

text \<open>
  Claim C8 as stated says the dropped chunk is logged; the console is the same before
  and after.
\<close>

theorem writeChunk_unknown_key_not_logged:
  "console (state_of (writeChunk ''late'' [1, 2, 3, 4] process_start)) = console process_start"
  by (simp add: writeChunk_def process_start_def state_of_def)

subsection \<open>Silence suppression\<close>



























subsection \<open>Down-mix\<close>

lemma channel_sum_eq: "channel_sum f n = (\<Sum>ch<n. f ch)"
proof -
  have "foldl (\<lambda>sum channel. sum + f channel) a [0..<n] = a + (\<Sum>ch<n. f ch)" for a
    by (induction n arbitrary: a) (simp_all add: add.assoc)
  then show ?thesis by (simp add: channel_sum_def)
qed

lemma nth_same_on_all_channels:
  "i < length signal \<Longrightarrow> ch < N \<Longrightarrow> same_on_all_channels N signal ! (i * N + ch) = signal ! i"
proof (induction signal arbitrary: i)
  case Nil
  then show ?case by simp
next
  case (Cons x xs)
  show ?case
  proof (cases i)
    case 0
    then show ?thesis using Cons.prems by (simp add: same_on_all_channels_def nth_append)
  next
    case (Suc j)
    have "same_on_all_channels N (x # xs) ! (i * N + ch) = same_on_all_channels N xs ! (j * N + ch)"
      using Suc by (simp add: same_on_all_channels_def nth_append)
    then show ?thesis using Cons.IH [of j] Cons.prems Suc by simp
  qed
qed

lemma length_same_on_all_channels: "length (same_on_all_channels N signal) = N * length signal"
  by (induction signal) (simp_all add: same_on_all_channels_def)

lemma convertToMono_mean:
  assumes "1 \<le> N"
  shows "convertToMono audioData N =
           Inr (map (frame_mean (\<lambda>i ch. audioData ! (i * N + ch)) N) [0..<length audioData div N])"
proof (cases "N = 1")
  case True
  have "map (frame_mean (\<lambda>i ch. audioData ! (i * 1 + ch)) 1) [0..<length audioData] = audioData"
    by (rule nth_equalityI) (simp_all add: frame_mean_def)
  then show ?thesis using True by (simp add: convertToMono_def)
next
  case False
  then show ?thesis
    using assms by (simp add: convertToMono_def frame_mean_def channel_sum_eq)
qed

lemma mean_of_equal:
  assumes "1 \<le> N" "i < length signal"
  shows "frame_mean (\<lambda>i ch. same_on_all_channels N signal ! (i * N + ch)) N i = signal ! i"
proof -
  have "(\<Sum>ch<N. same_on_all_channels N signal ! (i * N + ch)) = (\<Sum>ch<N. signal ! i)"
    by (rule sum.cong) (simp_all add: nth_same_on_all_channels assms(2))
  then show ?thesis using assms(1) by (simp add: frame_mean_def)
qed

lemma map_mean_same:
  assumes "1 \<le> N"
  shows "map (frame_mean (\<lambda>i ch. same_on_all_channels N signal ! (i * N + ch)) N) [0..<length signal] = signal"
proof (rule nth_equalityI)
  show "length (map (frame_mean (\<lambda>i ch. same_on_all_channels N signal ! (i * N + ch)) N) [0..<length signal]) = length signal"
    by simp
next
  fix i
  assume "i < length (map (frame_mean (\<lambda>i ch. same_on_all_channels N signal ! (i * N + ch)) N) [0..<length signal])"
  then have i: "i < length signal" by simp
  show "map (frame_mean (\<lambda>i ch. same_on_all_channels N signal ! (i * N + ch)) N) [0..<length signal] ! i = signal ! i"
    using mean_of_equal [OF assms i] i by simp
qed

lemma convertToMono_same:
  assumes "1 \<le> N"
  shows "convertToMono (same_on_all_channels N signal) N = Inr signal"
proof -
  show ?thesis
    using assms map_mean_same [OF assms, of signal]
    by (simp add: convertToMono_mean length_same_on_all_channels)
qed

lemma pump_mix_interleaved_mean:
  assumes "1 \<le> N" "length ileaved = N * numFr"
  shows "pump_mix_interleaved N numFr ileaved =
           Inr (map (frame_mean (\<lambda>i ch. ileaved ! (i * N + ch)) N) [0..<numFr])"
proof (cases "N = 1")
  case True
  have "map (frame_mean (\<lambda>i ch. ileaved ! (i * 1 + ch)) 1) [0..<numFr] = ileaved"
    using assms(2) True by (intro nth_equalityI) (simp_all add: frame_mean_def)
  then show ?thesis using True assms(2)
    by (simp add: pump_mix_interleaved_def typed_array_set_def)
next
  case False
  then show ?thesis
    by (simp add: pump_mix_interleaved_def frame_mean_def channel_sum_eq)
qed

lemma pump_mix_planar_mean:
  assumes "1 \<le> N" "length chBuf = N" "\<forall>c \<in> set chBuf. length c = numFr"
  shows "pump_mix_planar N numFr chBuf =
           Inr (map (frame_mean (\<lambda>i ch. chBuf ! ch ! i) N) [0..<numFr])"
proof (cases "N = 1")
  case True
  then have l: "length (chBuf ! 0) = numFr" using assms(2,3) by (cases chBuf) auto
  have "map (frame_mean (\<lambda>i ch. chBuf ! ch ! i) 1) [0..<numFr] = chBuf ! 0"
    using l by (intro nth_equalityI) (simp_all add: frame_mean_def)
  then show ?thesis using True l
    by (simp add: pump_mix_planar_def typed_array_set_def)
next
  case False
  then show ?thesis
    by (simp add: pump_mix_planar_def frame_mean_def channel_sum_eq)
qed

text \<open>
  Claim C9. For every channel count \<open>N \<ge> 1\<close>, \<open>convertToMono\<close> and both mono mixes of
  \<open>pump\<close> (planar, and interleaved on frame-complete input) give, at every position,
  the arithmetic mean of the \<open>N\<close> channel samples at that position; when all \<open>N\<close>
  channels carry the same signal the mono output is that signal.
\<close>

theorem downmix_is_mean:
  assumes "1 \<le> N"
  shows "convertToMono audioData N =
           Inr (map (frame_mean (\<lambda>i ch. audioData ! (i * N + ch)) N) [0..<length audioData div N])
       \<and> convertToMono (same_on_all_channels N signal) N = Inr signal
       \<and> (length ileaved = N * numFr \<longrightarrow>
            pump_mix_interleaved N numFr ileaved =
              Inr (map (frame_mean (\<lambda>i ch. ileaved ! (i * N + ch)) N) [0..<numFr]))
       \<and> (length chBuf = N \<and> (\<forall>c \<in> set chBuf. length c = numFr) \<longrightarrow>
            pump_mix_planar N numFr chBuf =
              Inr (map (frame_mean (\<lambda>i ch. chBuf ! ch ! i) N) [0..<numFr]))
       \<and> pump_mix_interleaved N (length signal) (same_on_all_channels N signal) = Inr signal
       \<and> pump_mix_planar N (length signal) (replicate N signal) = Inr signal"
proof -
  have i: "pump_mix_interleaved N (length signal) (same_on_all_channels N signal) = Inr signal"
  proof -
    show ?thesis
      using map_mean_same [OF assms, of signal] pump_mix_interleaved_mean [OF assms, of "same_on_all_channels N signal" "length signal"]
      by (simp add: length_same_on_all_channels)
  qed
  have p: "pump_mix_planar N (length signal) (replicate N signal) = Inr signal"
  proof -
    have "map (frame_mean (\<lambda>i ch. replicate N signal ! ch ! i) N) [0..<length signal] = signal"
      using assms by (intro nth_equalityI) (simp_all add: frame_mean_def)
    then show ?thesis
      using pump_mix_planar_mean [OF assms, of "replicate N signal" "length signal"] by simp
  qed
  show ?thesis
    using convertToMono_mean [OF assms] convertToMono_same [OF assms]
      pump_mix_interleaved_mean [OF assms] pump_mix_planar_mean [OF assms] i p
    by blast
qed

theorem downmix_is_mean_witness:
  "(1 :: nat) \<le> 2
   \<and> convertToMono [1, 3, 5, 7] 2 = Inr [2, 6]
   \<and> convertToMono (same_on_all_channels 2 [1 / 2, - 1 / 4]) 2 = Inr [1 / 2, - 1 / 4]
   \<and> pump_mix_interleaved 2 2 [1, 3, 5, 7] = Inr [2, 6]
   \<and> pump_mix_planar 2 2 [[1, 5], [3, 7]] = Inr [2, 6]"
proof -
  have h: "(1 :: nat) \<le> 2" by simp
  have u: "[0..<2] = [0, 1]" "{..<2::nat} = {0, 1}" by (auto simp: upt_rec)
  note m = downmix_is_mean [OF h, of "[1, 3, 5, 7]" "[1 / 2, - 1 / 4]" "[1, 3, 5, 7]" 2 "[[1, 5], [3, 7]]"]
  have a: "convertToMono [1, 3, 5, 7] 2 = Inr [2, 6]"
    using m by (simp add: frame_mean_def u)
  have b: "convertToMono (same_on_all_channels 2 [1 / 2, - 1 / 4]) 2 = Inr [1 / 2, - 1 / 4]"
    using m by blast
  have c: "pump_mix_interleaved 2 2 [1, 3, 5, 7] = Inr [2, 6]"
    using m by (simp add: frame_mean_def u)
  have d: "pump_mix_planar 2 2 [[1, 5], [3, 7]] = Inr [2, 6]"
    using m by (simp add: frame_mean_def u)
  show ?thesis using h a b c d by blast
qed

subsection \<open>Float to 16-bit conversion\<close>

lemma wrap_in_range:
  assumes "- 32768 \<le> n" "n \<le> (32767 :: int)"
  shows "(let m = n mod 65536 in if m \<ge> 32768 then m - 65536 else m) = n"
proof (cases "n < 0")
  case True
  have "(n + 65536) mod 65536 = n + 65536"
    using assms True by (intro mod_pos_pos_trivial) simp_all
  then have "n mod 65536 = n + 65536" by simp
  then show ?thesis using assms True by (simp add: Let_def)
next
  case False
  then have "n mod 65536 = n" using assms by simp
  then show ?thesis using assms by (simp add: Let_def)
qed

lemma scaled_clip:
  "scale_sample (Math_max_neg1 (Math_min_1 (Finite x))) =
     Finite (if clip_unit x < 0 then clip_unit x * 32768 else clip_unit x * 32767)"
  by (auto simp: scale_sample_def Math_max_neg1_def Math_min_1_def clip_unit_def min_def max_def)

lemma truncate_scaled_range:
  assumes "- 1 \<le> c" "c \<le> 1"
  shows "- 32768 \<le> truncate_real (if c < 0 then c * 32768 else c * 32767)"
    and "truncate_real (if c < 0 then c * 32768 else c * 32767) \<le> 32767"
proof -
  show "- 32768 \<le> truncate_real (if c < 0 then c * 32768 else c * 32767)"
  proof (cases "c < 0")
    case True
    have "real_of_int (- 32768) \<le> c * 32768" using assms by simp
    then have "- 32768 \<le> \<lceil>c * 32768\<rceil>" by (simp only: le_ceiling_iff)
    then show ?thesis using True by (simp add: truncate_real_def mult_less_0_iff)
  next
    case False
    then have "0 \<le> c * 32767" by simp
    then have "0 \<le> \<lfloor>c * 32767\<rfloor>" by simp
    then show ?thesis using False by (simp add: truncate_real_def)
  qed
  show "truncate_real (if c < 0 then c * 32768 else c * 32767) \<le> 32767"
  proof (cases "c < 0")
    case True
    then have "c * 32768 \<le> 0" by simp
    then have "\<lceil>c * 32768\<rceil> \<le> 0" by (simp add: ceiling_le_iff)
    then show ?thesis using True by (simp add: truncate_real_def mult_less_0_iff)
  next
    case False
    have "c * 32767 \<le> real_of_int 32767" using assms by simp
    then have "\<lfloor>c * 32767\<rfloor> \<le> 32767" by (simp add: floor_le_iff)
    then show ?thesis using False by (simp add: truncate_real_def)
  qed
qed

lemma clip_unit_range: "- 1 \<le> clip_unit x" "clip_unit x \<le> 1"
  by (simp_all add: clip_unit_def)

lemma sample_to_int16_finite:
  "sample_to_int16 (Finite x) =
     truncate_real (if clip_unit x < 0 then clip_unit x * 32768 else clip_unit x * 32767)"
  unfolding sample_to_int16_def scaled_clip ToInt16_def f32.case
  using truncate_scaled_range [OF clip_unit_range]
  by (rule wrap_in_range)

lemma sample_to_int16_range: "- 32768 \<le> sample_to_int16 s \<and> sample_to_int16 s \<le> 32767"
proof (cases s)
  case (Finite x)
  then show ?thesis
    using truncate_scaled_range [OF clip_unit_range, of x] by (simp add: sample_to_int16_finite)
qed (simp_all add: sample_to_int16_def Math_min_1_def Math_max_neg1_def scale_sample_def ToInt16_def
      truncate_real_def)

lemma quantization_error:
  assumes "- 1 \<le> x" "x \<le> 1"
  shows "\<bar>x - int16_to_float (sample_to_int16 (Finite x))\<bar> < 1 / 32767"
proof -
  have c: "clip_unit x = x" using assms by (simp add: clip_unit_def)
  show ?thesis
  proof (cases "x < 0")
    case True
    define q where "q = \<lceil>x * 32768\<rceil>"
    have q: "sample_to_int16 (Finite x) = q"
      using True by (simp add: sample_to_int16_finite c truncate_real_def q_def mult_less_0_iff)
    have up: "x * 32768 \<le> real_of_int q" unfolding q_def by (rule le_of_int_ceiling)
    have lo: "real_of_int q < x * 32768 + 1" unfolding q_def by linarith
    have q0: "q \<le> 0" unfolding q_def using True by (simp add: ceiling_le_iff)
    show ?thesis
    proof (cases "q < 0")
      case True
      have "\<bar>x - real_of_int q / 32768\<bar> < 1 / 32768"
        using up lo by (simp add: abs_less_iff field_simps)
      then show ?thesis using True by (simp add: q int16_to_float_def)
    next
      case False
      then have "q = 0" using q0 by simp
      then have "\<bar>x\<bar> < 1 / 32768" using lo up \<open>x < 0\<close> by (simp add: abs_less_iff field_simps)
      then show ?thesis using \<open>q = 0\<close> by (simp add: q int16_to_float_def)
    qed
  next
    case False
    define q where "q = \<lfloor>x * 32767\<rfloor>"
    have q: "sample_to_int16 (Finite x) = q"
      using False by (simp add: sample_to_int16_finite c truncate_real_def q_def)
    have lo: "real_of_int q \<le> x * 32767" unfolding q_def by (rule of_int_floor_le)
    have up: "x * 32767 < real_of_int q + 1" unfolding q_def by linarith
    have q0: "0 \<le> q" unfolding q_def using False by simp
    have "\<bar>x - real_of_int q / 32767\<bar> < 1 / 32767"
      using up lo by (simp add: abs_less_iff field_simps)
    then show ?thesis using q0 by (simp add: q int16_to_float_def)
  qed
qed

lemma extremes:
  "sample_to_int16 (Finite (- 1)) = - 32768" "sample_to_int16 (Finite 1) = 32767"
  "sample_to_int16 MinusInfinity = - 32768" "sample_to_int16 PlusInfinity = 32767"
  "sample_to_int16 NaN = 0"
  by (simp_all add: sample_to_int16_def Math_min_1_def Math_max_neg1_def scale_sample_def
      ToInt16_def truncate_real_def)

lemma int16_of_bytes:
  assumes "- 32768 \<le> v" "v \<le> 32767"
  shows "int16_of (word_of_int v) (word_of_int (v div 256)) = v"
proof -
  have lo: "uint (word_of_int v :: byte) = v mod 256"
    by (simp add: uint_word_of_int_eq take_bit_eq_mod)
  have hi: "uint (word_of_int (v div 256) :: byte) = v div 256 mod 256"
    by (simp add: uint_word_of_int_eq take_bit_eq_mod)
  have "v mod (256 * 256) = 256 * (v div 256 mod 256) + v mod 256"
    by (rule zmod_zmult2_eq) simp
  then have u: "v mod 256 + 256 * (v div 256 mod 256) = v mod 65536" by simp
  show ?thesis
    unfolding int16_of_def lo hi u using assms by (rule wrap_in_range)
qed

lemma int16_samples_f32ToI16: "int16_samples (f32ToI16 samples) = convertFloat32ToInt16 samples"
proof (induction samples)
  case Nil
  then show ?case by (simp add: f32ToI16_def convertFloat32ToInt16_def)
next
  case (Cons s samples)
  have "int16_of (word_of_int (sample_to_int16 s)) (word_of_int (sample_to_int16 s div 256)) = sample_to_int16 s"
    using sample_to_int16_range [of s] by (intro int16_of_bytes) simp_all
  then show ?case
    using Cons by (simp add: f32ToI16_def convertFloat32ToInt16_def Let_def)
qed

text \<open>
  Claim C3. For every finite sample the 16-bit value is the truncation of the sample
  clipped to \<open>[-1, 1]\<close> and scaled by 32768 when negative and by 32767 otherwise, with
  no wrap-around; \<open>-1.0\<close> gives \<open>-32768\<close> and \<open>1.0\<close> gives \<open>32767\<close>, as do the
  infinities, which are clipped to them; for a sample in \<open>[-1, 1]\<close> dividing the result
  by the scale of its sign gives the sample back within one quantization step,
  \<open>1/32767\<close>; and the little-endian bytes written by \<open>f32ToI16\<close> read back as the values
  of \<open>convertFloat32ToInt16\<close>.
\<close>

theorem float_to_int16:
  "sample_to_int16 (Finite x) =
      truncate_real (if clip_unit x < 0 then clip_unit x * 32768 else clip_unit x * 32767)
   \<and> sample_to_int16 (Finite (- 1)) = - 32768
   \<and> sample_to_int16 (Finite 1) = 32767
   \<and> sample_to_int16 MinusInfinity = - 32768
   \<and> sample_to_int16 PlusInfinity = 32767
   \<and> (- 1 \<le> x \<and> x \<le> 1 \<longrightarrow> \<bar>x - int16_to_float (sample_to_int16 (Finite x))\<bar> < 1 / 32767)
   \<and> int16_samples (f32ToI16 samples) = convertFloat32ToInt16 samples"
  using sample_to_int16_finite [of x] extremes(1,2,3,4) quantization_error [of x]
    int16_samples_f32ToI16 [of samples]
  by blast

theorem float_to_int16_witness:
  "sample_to_int16 (Finite (1 / 2)) = 16383
   \<and> \<bar>1 / 2 - int16_to_float (sample_to_int16 (Finite (1 / 2)))\<bar> < 1 / 32767
   \<and> int16_samples (f32ToI16 [Finite (- 1), Finite 1]) = convertFloat32ToInt16 [Finite (- 1), Finite 1]"
proof -
  note f = float_to_int16 [of "1 / 2" "[Finite (- 1), Finite 1]"]
  have c: "clip_unit (1 / 2) = 1 / 2" by (simp add: clip_unit_def)
  have a: "sample_to_int16 (Finite (1 / 2)) = 16383"
    using f unfolding c by (simp add: truncate_real_def)
  have h: "- 1 \<le> (1 / 2 :: real) \<and> (1 / 2 :: real) \<le> 1" by simp
  have b: "\<bar>1 / 2 - int16_to_float (sample_to_int16 (Finite (1 / 2)))\<bar> < 1 / 32767"
    using f h by blast
  show ?thesis using a b f by blast
qed

subsection \<open>Metadata writes\<close>

lemma tmp_path_neq: "tmp_path file pid now rnd \<noteq> file"
proof
  assume "tmp_path file pid now rnd = file"
  then have "length (tmp_path file pid now rnd) = length file" by simp
  then show False by (simp add: tmp_path_def)
qed

lemma tmp_path_neq': "dest \<noteq> tmp_path dest pid now rnd"
  using tmp_path_neq by metis

lemma not_Some_pair: "(\<forall>a b. x \<noteq> Some (a, b)) \<longleftrightarrow> x = None"
  by (cases x) auto

lemma run_resolved:
  "rejected (run env pid now rnd dest doc d) = None \<Longrightarrow>
     disk_after (run env pid now rnd dest doc d) dest = Some doc
   \<and> disk_after (run env pid now rnd dest doc d) (tmp_path dest pid now rnd) = None"
  by (auto simp: run_def Let_def tmp_path_neq tmp_path_neq' split: option.splits prod.splits if_splits)

lemma run_calls:
  "calls (run env pid now rnd dest doc d) =
     WriteFile # (if writeFile_fails env \<noteq> None then []
       else Rename # (if rename_fails env \<noteq> Some EXDEV then []
         else CopyFile # (if copyFile_fails env \<noteq> None then [] else [Unlink])))"
  by (auto simp: run_def Let_def split: option.splits prod.splits)

lemma run_rename_path:
  "rename_fails env \<noteq> Some EXDEV \<Longrightarrow>
     (rejected (run env pid now rnd dest doc d) = None
        \<and> disk_after (run env pid now rnd dest doc d) dest = Some doc)
     \<or> (rejected (run env pid now rnd dest doc d) \<noteq> None
        \<and> disk_after (run env pid now rnd dest doc d) dest = d dest)"
  by (auto simp: run_def Let_def tmp_path_neq tmp_path_neq' split: option.splits prod.splits)

lemma writeJsonAtomic_started:
  "mkdir_fails env = None \<Longrightarrow>
   writeJsonAtomic env None pid now rnd dest doc d =
     (run env pid now rnd dest doc d)\<lparr>calls := Mkdir # calls (run env pid now rnd dest doc d)\<rparr>"
  by (simp add: writeJsonAtomic_def Let_def)

lemma writeJsonAtomic_not_started:
  "mkdir_fails env \<noteq> None \<or> prev \<noteq> None \<Longrightarrow>
   rejected (writeJsonAtomic env prev pid now rnd dest doc d) \<noteq> None
   \<and> disk_after (writeJsonAtomic env prev pid now rnd dest doc d) = d
   \<and> calls (writeJsonAtomic env prev pid now rnd dest doc d) = [Mkdir]"
  by (auto simp: writeJsonAtomic_def split: option.splits)

text \<open>
  Claim C5, as amended. A write that resolves leaves the complete new document at the
  destination and no temporary file. After the directory has been ensured, a write
  queued behind a write to the same path that is rejected is rejected with the same
  error and touches nothing; otherwise it writes the temporary file, then renames it,
  then, if and only if the rename failed with \<open>EXDEV\<close>, copies it to the destination,
  and then, if and only if the copy succeeded, unlinks it, stopping at the first call
  that fails otherwise. Whenever the rename does not fail with \<open>EXDEV\<close>, the
  destination holds either the complete new document (the write resolved) or exactly
  what it held before (the write was rejected).
\<close>

theorem writeJsonAtomic_rename_path:
  "(rejected (writeJsonAtomic env prev pid now rnd dest doc d) = None \<longrightarrow>
       disk_after (writeJsonAtomic env prev pid now rnd dest doc d) dest = Some doc
     \<and> disk_after (writeJsonAtomic env prev pid now rnd dest doc d) (tmp_path dest pid now rnd) = None)
   \<and> (mkdir_fails env = None \<longrightarrow> (\<forall>e. prev = Some e \<longrightarrow>
        rejected (writeJsonAtomic env prev pid now rnd dest doc d) = Some e
      \<and> disk_after (writeJsonAtomic env prev pid now rnd dest doc d) = d
      \<and> calls (writeJsonAtomic env prev pid now rnd dest doc d) = [Mkdir]))
   \<and> (mkdir_fails env = None \<and> prev = None \<longrightarrow>
        calls (writeJsonAtomic env prev pid now rnd dest doc d) =
          Mkdir # WriteFile # (if writeFile_fails env \<noteq> None then []
            else Rename # (if rename_fails env \<noteq> Some EXDEV then []
              else CopyFile # (if copyFile_fails env \<noteq> None then [] else [Unlink]))))
   \<and> (CopyFile \<in> set (calls (writeJsonAtomic env prev pid now rnd dest doc d)) \<longleftrightarrow>
        mkdir_fails env = None \<and> prev = None \<and> writeFile_fails env = None
        \<and> rename_fails env = Some EXDEV)
   \<and> (Unlink \<in> set (calls (writeJsonAtomic env prev pid now rnd dest doc d)) \<longleftrightarrow>
        mkdir_fails env = None \<and> prev = None \<and> writeFile_fails env = None
        \<and> rename_fails env = Some EXDEV \<and> copyFile_fails env = None)
   \<and> (rename_fails env \<noteq> Some EXDEV \<longrightarrow>
        (rejected (writeJsonAtomic env prev pid now rnd dest doc d) = None
           \<and> disk_after (writeJsonAtomic env prev pid now rnd dest doc d) dest = Some doc)
        \<or> (rejected (writeJsonAtomic env prev pid now rnd dest doc d) \<noteq> None
           \<and> disk_after (writeJsonAtomic env prev pid now rnd dest doc d) dest = d dest))"
proof (cases "mkdir_fails env = None \<and> prev = None")
  case True
  then have w: "writeJsonAtomic env prev pid now rnd dest doc d =
     (run env pid now rnd dest doc d)\<lparr>calls := Mkdir # calls (run env pid now rnd dest doc d)\<rparr>"
    using writeJsonAtomic_started [of env pid now rnd dest doc d] by simp
  show ?thesis
    unfolding w using True run_resolved [of env pid now rnd dest doc d]
      run_rename_path [of env pid now rnd dest doc d]
    by (auto simp: run_calls not_Some_pair)
next
  case False
  then have n: "mkdir_fails env \<noteq> None \<or> prev \<noteq> None" by simp
  have e: "mkdir_fails env = None \<Longrightarrow> prev = Some e \<Longrightarrow>
      rejected (writeJsonAtomic env prev pid now rnd dest doc d) = Some e" for e
    by (simp add: writeJsonAtomic_def)
  show ?thesis
    using writeJsonAtomic_not_started [OF n, of pid now rnd dest doc d] False e
    by auto
qed

theorem writeJsonAtomic_rename_path_witness:
  "rejected (writeJsonAtomic all_succeed None ''1'' ''2'' ''x'' ''meta.json'' ''{new}'' [''meta.json'' \<mapsto> ''{old}'']) = None
   \<and> disk_after (writeJsonAtomic all_succeed None ''1'' ''2'' ''x'' ''meta.json'' ''{new}'' [''meta.json'' \<mapsto> ''{old}''])
        ''meta.json'' = Some ''{new}''
   \<and> disk_after (writeJsonAtomic all_succeed None ''1'' ''2'' ''x'' ''meta.json'' ''{new}'' [''meta.json'' \<mapsto> ''{old}''])
        (tmp_path ''meta.json'' ''1'' ''2'' ''x'') = None
   \<and> calls (writeJsonAtomic all_succeed None ''1'' ''2'' ''x'' ''meta.json'' ''{new}'' [''meta.json'' \<mapsto> ''{old}''])
        = [Mkdir, WriteFile, Rename]"
proof -
  have r: "rejected (writeJsonAtomic all_succeed None ''1'' ''2'' ''x'' ''meta.json'' ''{new}'' [''meta.json'' \<mapsto> ''{old}'']) = None"
    by (simp add: writeJsonAtomic_def run_def all_succeed_def Let_def)
  have n: "mkdir_fails all_succeed = None" "writeFile_fails all_succeed = None"
      "rename_fails all_succeed \<noteq> Some EXDEV"
    by (simp_all add: all_succeed_def)
  show ?thesis
    using r n writeJsonAtomic_rename_path [of all_succeed None "''1''" "''2''" "''x''" "''meta.json''" "''{new}''"
        "[''meta.json'' \<mapsto> ''{old}'']"]
    by simp
qed

text \<open>
  Claim C5 as stated fails on the cross-volume fallback and behind a rejected write.
  With the rename failing with \<open>EXDEV\<close>: if the unlink of the temporary file fails, the
  write is rejected although the destination already holds the new document, not the
  previous one; and if the copy fails part-way, the write is rejected and the
  destination holds a partial document. And a write queued behind one whose rename
  failed with \<open>EIO\<close> is rejected with \<open>EIO\<close> without serializing anything: its only
  call is the \<open>mkdir\<close>.
\<close>

theorem writeJsonAtomic_exdev_counterexample:
  "rejected (writeJsonAtomic (all_succeed\<lparr>rename_fails := Some EXDEV, unlink_fails := Some EPERM\<rparr>) None
        ''1'' ''2'' ''x'' ''meta.json'' ''{new}'' [''meta.json'' \<mapsto> ''{old}'']) = Some EPERM
   \<and> disk_after (writeJsonAtomic (all_succeed\<lparr>rename_fails := Some EXDEV, unlink_fails := Some EPERM\<rparr>) None
        ''1'' ''2'' ''x'' ''meta.json'' ''{new}'' [''meta.json'' \<mapsto> ''{old}'']) ''meta.json'' = Some ''{new}''
   \<and> rejected (writeJsonAtomic (all_succeed\<lparr>rename_fails := Some EXDEV, copyFile_fails := Some (ENOSPC, Some ''{n'')\<rparr>) None
        ''1'' ''2'' ''x'' ''meta.json'' ''{new}'' [''meta.json'' \<mapsto> ''{old}'']) = Some ENOSPC
   \<and> disk_after (writeJsonAtomic (all_succeed\<lparr>rename_fails := Some EXDEV, copyFile_fails := Some (ENOSPC, Some ''{n'')\<rparr>) None
        ''1'' ''2'' ''x'' ''meta.json'' ''{new}'' [''meta.json'' \<mapsto> ''{old}'']) ''meta.json'' = Some ''{n''
   \<and> rejected (writeJsonAtomic (all_succeed\<lparr>rename_fails := Some EIO\<rparr>) None
        ''1'' ''2'' ''x'' ''meta.json'' ''{a}'' [''meta.json'' \<mapsto> ''{old}'']) = Some EIO
   \<and> calls (writeJsonAtomic all_succeed
        (rejected (writeJsonAtomic (all_succeed\<lparr>rename_fails := Some EIO\<rparr>) None
           ''1'' ''2'' ''x'' ''meta.json'' ''{a}'' [''meta.json'' \<mapsto> ''{old}'']))
        ''1'' ''3'' ''y'' ''meta.json'' ''{b}''
        (disk_after (writeJsonAtomic (all_succeed\<lparr>rename_fails := Some EIO\<rparr>) None
           ''1'' ''2'' ''x'' ''meta.json'' ''{a}'' [''meta.json'' \<mapsto> ''{old}'']))) = [Mkdir]
   \<and> rejected (writeJsonAtomic all_succeed
        (rejected (writeJsonAtomic (all_succeed\<lparr>rename_fails := Some EIO\<rparr>) None
           ''1'' ''2'' ''x'' ''meta.json'' ''{a}'' [''meta.json'' \<mapsto> ''{old}'']))
        ''1'' ''3'' ''y'' ''meta.json'' ''{b}''
        (disk_after (writeJsonAtomic (all_succeed\<lparr>rename_fails := Some EIO\<rparr>) None
           ''1'' ''2'' ''x'' ''meta.json'' ''{a}'' [''meta.json'' \<mapsto> ''{old}'']))) = Some EIO"
  by (simp add: writeJsonAtomic_def run_def all_succeed_def Let_def tmp_path_def)

subsection \<open>Speaker attribution\<close>

text \<open>
  Claim C1 against \<open>transform\<close>: whatever the statements after the call of
  \<open>receiverManager.getContributingSources\<close> do, no frame leads to a call of
  \<open>sendParticipantAudioChunk\<close>. A frame of peak amplitude \<open>1/2\<close> is not silent; the
  call throws a TypeError, the frame is closed and no chunk is sent under any identity.
\<close>

theorem transform_sends_nothing:
  "sent (transform ReceiverManager attributed audioData) = None
   \<and> \<not> frame_silent [1 / 2]
   \<and> transform ReceiverManager attributed [1 / 2] =
       \<lparr>sent = None, enqueued = False, closed = True, caught = Some TypeError\<rparr>"
  by (simp add: transform_def call_method_def ReceiverManager_def frame_silent_def)

end
